theory Spec2Isabelle
  imports Main "HOL-Library.Word" "HOL-Library.AList"
begin

unbundle bit_operations_syntax

section \<open>Exceptions of construct/core.py\<close>

text \<open>
  The exception classes declared at the top of core.py, together with the Python
  built-ins they derive from or that the code raises. \<open>StructError\<close> is
  \<open>struct.error\<close> (imported as \<open>PackerError\<close>).
\<close>

text \<open>
  Modelled from the spec: \<open>MappingError\<close> is declared in construct/adapters.py, which is
  not part of the sources at hand; the spec calls it a subkind of the adaptation error.
\<close>

datatype pyclass =
    BaseException | Exception | ValueError | TypeError | AttributeError | LookupError
  | IndexError | KeyError | UnicodeError | UnicodeDecodeError | UnicodeEncodeError | StructError
  | ConstructError | FieldError | SizeofError | AdaptationError | ArrayError | RangeError
  | SwitchError | SelectError | TerminatorError | OverwriteError | PaddingError | ConstError
  | StringError | ChecksumError | ValidationError | BitIntegerError | MappingError

text \<open>The base class written in each class statement.\<close>

fun base :: "pyclass \<Rightarrow> pyclass option" where
  "base BaseException = None"
| "base Exception = Some BaseException"
| "base ValueError = Some Exception"
| "base TypeError = Some Exception"
| "base AttributeError = Some Exception"
| "base LookupError = Some Exception"
| "base IndexError = Some LookupError"
| "base KeyError = Some LookupError"
| "base UnicodeError = Some ValueError"
| "base UnicodeDecodeError = Some UnicodeError"
| "base UnicodeEncodeError = Some UnicodeError"
| "base StructError = Some Exception"
| "base ConstructError = Some Exception"
| "base FieldError = Some ConstructError"
| "base SizeofError = Some ConstructError"
| "base AdaptationError = Some ConstructError"
| "base ArrayError = Some ConstructError"
| "base RangeError = Some ConstructError"
| "base SwitchError = Some ConstructError"
| "base SelectError = Some ConstructError"
| "base TerminatorError = Some ConstructError"
| "base OverwriteError = Some ValueError"
| "base PaddingError = Some ConstructError"
| "base ConstError = Some ConstructError"
| "base StringError = Some ConstructError"
| "base ChecksumError = Some ConstructError"
| "base ValidationError = Some AdaptationError"
| "base BitIntegerError = Some AdaptationError"
| "base MappingError = Some AdaptationError"

text \<open>Distance of a class from \<open>BaseException\<close>; it decreases along \<open>base\<close>.\<close>

fun rank :: "pyclass \<Rightarrow> nat" where
  "rank BaseException = 0"
| "rank Exception = 1"
| "rank IndexError = 3"
| "rank KeyError = 3"
| "rank UnicodeDecodeError = 4"
| "rank UnicodeEncodeError = 4"
| "rank AttributeError = 2"
| "rank ValidationError = 4"
| "rank BitIntegerError = 4"
| "rank MappingError = 4"
| "rank OverwriteError = 3"
| "rank ValueError = 2"
| "rank TypeError = 2"
| "rank LookupError = 2"
| "rank StructError = 2"
| "rank ConstructError = 2"
| "rank c = 3"

text \<open>
  \<open>issubclass c d\<close>: walking up the bases from \<open>c\<close> reaches \<open>d\<close>. A clause
  \<open>except d:\<close> catches an exception of class \<open>c\<close> exactly when this holds.
\<close>

function issubclass :: "pyclass \<Rightarrow> pyclass \<Rightarrow> bool" where
  "issubclass c d = (c = d \<or> (case base c of None \<Rightarrow> False | Some b \<Rightarrow> issubclass b d))"
  by pat_completeness auto
termination
proof (relation "measure (\<lambda>(c, d). rank c)")
  show "wf (measure (\<lambda>(c, d). rank c))" by simp
next
  fix c d :: pyclass and b
  assume "base c = Some b"
  then have "rank b < rank c" by (cases c) auto
  then show "((b, d), (c, d)) \<in> measure (\<lambda>(c, d). rank c)" by simp
qed

declare issubclass.simps [simp del]

type_synonym 'a result = "pyclass + 'a"

text \<open>The kinds the spec lists as direct children of the root kind.\<close>

definition taxonomy :: "pyclass list" where
  "taxonomy = [FieldError, SizeofError, AdaptationError, ArrayError, RangeError, SwitchError,
     SelectError, TerminatorError, OverwriteError, PaddingError, ConstError, StringError,
     ChecksumError]"

definition adaptation_subkinds :: "pyclass list" where
  "adaptation_subkinds = [ValidationError, MappingError, BitIntegerError]"

section \<open>Values, containers and streams\<close>

type_synonym byte = "8 word"

text \<open>
  The Python values that flow through the constructs modelled here: \<open>None\<close>, integers,
  byte strings, text strings, lists (\<open>ListContainer\<close> is a list), tuples and containers.
  A container key is a construct name, which may be \<open>None\<close>. A container that the code
  writes into in place while others hold it too is kept in a store of shared objects, and
  \<open>VRef a\<close> is the reference to the object at address \<open>a\<close> of that store; \<open>VCont\<close> is a
  container taken by value.
\<close>

datatype pyval =
    VNone | VInt int | VBytes "byte list" | VStr string
  | VList "pyval list" | VTuple "pyval list" | VCont "(string option \<times> pyval) list"
  | VRef nat

type_synonym container = "(string option \<times> pyval) list"

text \<open>
  Modelled from the spec: \<open>Container\<close> is declared in construct/lib/container.py, which is
  not part of the sources at hand. The spec describes an insertion-ordered mapping from name
  to value; \<open>in\<close>, item assignment and \<open>del\<close> are those of a mapping.
\<close>

definition Container_contains :: "container \<Rightarrow> string option \<Rightarrow> bool" where
  "Container_contains con k = (k \<in> set (map fst con))"

definition Container_setitem :: "container \<Rightarrow> string option \<Rightarrow> pyval \<Rightarrow> container" where
  "Container_setitem con k v = AList.update k v con"

definition Container_delitem :: "container \<Rightarrow> string option \<Rightarrow> container" where
  "Container_delitem con k = AList.delete k con"

text \<open>
  Modelled from the spec: \<open>update\<close> of \<open>Container\<close> (construct/lib/container.py is not
  part of the sources at hand) commits the entries of another mapping into this one, as the
  \<open>update\<close> of a Python mapping does.
\<close>

definition Container_update :: "container \<Rightarrow> container \<Rightarrow> container" where
  "Container_update con other = fold (\<lambda>(k, v) acc. AList.update k v acc) other con"

text \<open>
  A context is a container together with the objects its values refer to: \<open>vars\<close> is
  the mapping itself, \<open>shared\<close> the store of the mutable containers that a \<open>VRef\<close>
  addresses. A construct gets the context and returns it as it leaves it: what it wrote into
  the mapping and what it wrote in place into the shared objects.
\<close>

record ctxt =
  vars :: container
  shared :: "container list"

text \<open>\<open>Container()\<close> as a context: no entries, and nothing referred to.\<close>

definition new_context :: ctxt where
  "new_context = \<lparr>vars = [], shared = []\<rparr>"

text \<open>
  Modelled from the spec: \<open>__copy__\<close> and \<open>__update__\<close> of \<open>Container\<close>
  (construct/lib/container.py is not part of the sources at hand). \<open>__copy__\<close> gives a
  private copy of the mapping: a new mapping with the same entries, which refer to the same
  objects (the copy is shallow). \<open>__update__\<close> commits the entries of another container
  into this one. \<open>copy_dropped context context2\<close> is what the holder of \<open>context\<close> has
  once a callee has worked on a copy and left it as \<open>context2\<close>, and the copy is dropped:
  its own mapping as it was, and the shared objects as the callee left them.
\<close>

definition context_copy :: "ctxt \<Rightarrow> ctxt" where
  "context_copy context = \<lparr>vars = vars context, shared = shared context\<rparr>"

definition copy_dropped :: "ctxt \<Rightarrow> ctxt \<Rightarrow> ctxt" where
  "copy_dropped context context2 = \<lparr>vars = vars context, shared = shared context2\<rparr>"


text \<open>
  \<open>obj_container\<close>: the mapping that a value stands for, when it is a container: one
  taken by value, or the shared object a reference addresses. \<open>new_object\<close> puts a
  container into the store as a new shared object and gives its reference. An address outside
  the store refers to nothing (no Python value is like that) and is no container.
\<close>

definition obj_container :: "ctxt \<Rightarrow> pyval \<Rightarrow> container option" where
  "obj_container context obj =
     (case obj of
        VCont c \<Rightarrow> Some c
      | VRef a \<Rightarrow> if a < length (shared context) then Some (shared context ! a) else None
      | _ \<Rightarrow> None)"

definition new_object :: "ctxt \<Rightarrow> container \<Rightarrow> pyval \<times> ctxt" where
  "new_object context c =
     (VRef (length (shared context)), context\<lparr>shared := shared context @ [c]\<rparr>)"

text \<open>\<open>in\<close>, item assignment and \<open>del\<close> on the mapping of a context.\<close>

definition context_contains :: "ctxt \<Rightarrow> string option \<Rightarrow> bool" where
  "context_contains context k = Container_contains (vars context) k"

definition context_setitem :: "ctxt \<Rightarrow> string option \<Rightarrow> pyval \<Rightarrow> ctxt" where
  "context_setitem context k v = context\<lparr>vars := Container_setitem (vars context) k v\<rparr>"

definition context_delitem :: "ctxt \<Rightarrow> string option \<Rightarrow> ctxt" where
  "context_delitem context k = context\<lparr>vars := Container_delitem (vars context) k\<rparr>"

text \<open>
  \<open>collections.Sequence\<close>: lists, tuples, byte strings and text strings are sequences; the
  items are what iterating over the value yields.
\<close>

fun seq_items :: "pyval \<Rightarrow> pyval list option" where
  "seq_items (VList xs) = Some xs"
| "seq_items (VTuple xs) = Some xs"
| "seq_items (VBytes bs) = Some (map (\<lambda>b. VInt (uint b)) bs)"
| "seq_items (VStr cs) = Some (map (\<lambda>c. VStr [c]) cs)"
| "seq_items v = None"

text \<open>
  The stream is an \<open>io.BytesIO\<close> of the standard library. When parsing, no construct writes
  to it: the parsers take the bytes and the position and return the new position.
  \<open>stream_read data pos n\<close> is \<open>stream.read(n)\<close>: at most \<open>n\<close> bytes from the position,
  which advances by the number of bytes read.
\<close>

definition stream_read :: "byte list \<Rightarrow> nat \<Rightarrow> nat \<Rightarrow> byte list \<times> nat" where
  "stream_read data pos n = (let d = take n (drop pos data) in (d, pos + length d))"

text \<open>
  \<open>stream.seek(offset, 2)\<close>: relative to the end of the stream; \<open>BytesIO\<close> stops at 0.
  \<open>stream.seek(offset)\<close> with a position that \<open>tell\<close> returned sets the position.
\<close>

definition seek_end :: "nat \<Rightarrow> int \<Rightarrow> nat" where
  "seek_end len offset = nat (max 0 (int len + offset))"

text \<open>When building, the stream is a \<open>BytesIO\<close> with its buffer and its position.\<close>

record stream =
  sbuf :: "byte list"
  spos :: nat

definition BytesIO :: "byte list \<Rightarrow> stream" where
  "BytesIO data = \<lparr>sbuf = data, spos = 0\<rparr>"

definition getvalue :: "stream \<Rightarrow> byte list" where
  "getvalue s = sbuf s"

text \<open>
  \<open>stream.write(d)\<close>: overwrites from the position and extends the buffer; a position
  beyond the end is first filled with zero bytes; writing nothing changes nothing.
\<close>

definition stream_write :: "stream \<Rightarrow> byte list \<Rightarrow> stream" where
  "stream_write s d =
     (if d = [] then s
      else let b = sbuf s @ replicate (spos s - length (sbuf s)) 0
           in \<lparr>sbuf = take (spos s) b @ d @ drop (spos s + length d) b,
               spos = spos s + length d\<rparr>)"

definition read_stream :: "byte list \<Rightarrow> nat \<Rightarrow> int \<Rightarrow> byte list result \<times> nat" where
  "read_stream data pos len =
     (if len < 0 then (Inl ValueError, pos)
      else let (d, pos') = stream_read data pos (nat len)
           in if int (length d) \<noteq> len then (Inl FieldError, pos') else (Inr d, pos'))"

definition write_stream :: "stream \<Rightarrow> int \<Rightarrow> byte list \<Rightarrow> unit result \<times> stream" where
  "write_stream s len d =
     (if len < 0 then (Inl ValueError, s)
      else if int (length d) \<noteq> len then (Inl FieldError, s)
      else (Inr (), stream_write s d))"

section \<open>The construct abstraction\<close>

text \<open>
  A construct carries the name of its class, its name, its flags and the three methods
  \<open>_parse\<close>, \<open>_build\<close> and \<open>_sizeof\<close>. Every method returns the value or the
  exception it raises, together with the stream and the context as it leaves them: both are
  mutated in place in the source, so the caller of a method that raised still sees what it
  did to them.
\<close>

record construct =
  con_class :: string
  con_name :: "string option"
  conflags :: int
  con_parse :: "byte list \<Rightarrow> nat \<Rightarrow> ctxt \<Rightarrow> pyval result \<times> nat \<times> ctxt"
  con_build :: "pyval \<Rightarrow> stream \<Rightarrow> ctxt \<Rightarrow> unit result \<times> stream \<times> ctxt"
  con_sizeof :: "ctxt \<Rightarrow> int result"

definition FLAG_COPY_CONTEXT :: int where "FLAG_COPY_CONTEXT = 1"
definition FLAG_DYNAMIC :: int where "FLAG_DYNAMIC = 2"
definition FLAG_EMBED :: int where "FLAG_EMBED = 4"
definition FLAG_NESTING :: int where "FLAG_NESTING = 8"

definition set_flag :: "int \<Rightarrow> int \<Rightarrow> int" where
  "set_flag flags flag = flags OR flag"

definition clear_flag :: "int \<Rightarrow> int \<Rightarrow> int" where
  "clear_flag flags flag = flags AND NOT flag"

definition is_flag :: "int \<Rightarrow> int \<Rightarrow> bool" where
  "is_flag flags flag = (flags AND flag \<noteq> 0)"

text \<open>
  \<open>Construct.__init__\<close>. A name is a text string (\<open>str\<close>) or \<open>None\<close>. The test for
  the reserved names compares \<open>unknownstring2bytes(name)\<close> with the byte strings \<open>b"_"\<close>
  and \<open>b"<"\<close>; on Python 3 \<open>unknownstring2bytes\<close> hands a \<open>str\<close> back as it is, and a
  \<open>str\<close> is never equal to a byte string, so no text name is refused (only a name given
  as a byte string can be).
\<close>

definition Construct_init :: "string option \<Rightarrow> int \<Rightarrow> (string option \<times> int) result" where
  "Construct_init name flags = Inr (name, flags)"

text \<open>The external API: \<open>parse\<close>, \<open>build\<close> and \<open>sizeof\<close> without a context.\<close>

definition parse :: "construct \<Rightarrow> byte list \<Rightarrow> pyval result" where
  "parse c data = fst (con_parse c data 0 new_context)"

definition build :: "construct \<Rightarrow> pyval \<Rightarrow> byte list result" where
  "build c obj =
     (case con_build c obj (BytesIO []) new_context of
        (Inl e, s, ctx) \<Rightarrow> Inl e
      | (Inr u, s, ctx) \<Rightarrow> Inr (getvalue s))"

definition sizeof :: "construct \<Rightarrow> int result" where
  "sizeof c = con_sizeof c new_context"

section \<open>Packed integers\<close>

text \<open>
  \<open>Packer\<close> is \<open>struct.Struct\<close> of the standard library. It is modelled for the byte
  orders \<open>>\<close> and \<open><\<close> (standard sizes, no alignment) and for the integer format
  characters \<open>B H L Q\<close> (unsigned) and \<open>b h l q\<close> (signed). Packing a value that is not an
  integer, or an integer outside the range of its code, raises \<open>struct.error\<close>.
\<close>

datatype endianity = BigEndian | LittleEndian

datatype format_code = Code_B | Code_H | Code_L | Code_Q | Code_b | Code_h | Code_l | Code_q

fun code_size :: "format_code \<Rightarrow> nat" where
  "code_size Code_B = 1"
| "code_size Code_H = 2"
| "code_size Code_L = 4"
| "code_size Code_Q = 8"
| "code_size Code_b = 1"
| "code_size Code_h = 2"
| "code_size Code_l = 4"
| "code_size Code_q = 8"

fun code_signed :: "format_code \<Rightarrow> bool" where
  "code_signed Code_b = True"
| "code_signed Code_h = True"
| "code_signed Code_l = True"
| "code_signed Code_q = True"
| "code_signed c = False"

fun le_bytes :: "nat \<Rightarrow> int \<Rightarrow> byte list" where
  "le_bytes 0 v = []"
| "le_bytes (Suc n) v = word_of_int v # le_bytes n (v div 256)"

fun le_int :: "byte list \<Rightarrow> int" where
  "le_int [] = 0"
| "le_int (b # bs) = uint b + 256 * le_int bs"

definition byte_order :: "endianity \<Rightarrow> byte list \<Rightarrow> byte list" where
  "byte_order e bs = (case e of BigEndian \<Rightarrow> rev bs | LittleEndian \<Rightarrow> bs)"

definition pack_int :: "endianity \<Rightarrow> format_code \<Rightarrow> pyval \<Rightarrow> byte list result" where
  "pack_int e c v =
     (case v of
        VInt i \<Rightarrow>
          let n = code_size c;
              lo = (if code_signed c then - (2 ^ (8 * n - 1)) else 0);
              hi = (if code_signed c then 2 ^ (8 * n - 1) else 2 ^ (8 * n))
          in if lo \<le> i \<and> i < hi then Inr (byte_order e (le_bytes n i)) else Inl StructError
      | _ \<Rightarrow> Inl StructError)"

definition unpack_int :: "endianity \<Rightarrow> format_code \<Rightarrow> byte list \<Rightarrow> int" where
  "unpack_int e c bs =
     (let n = code_size c; u = le_int (byte_order e bs)
      in if code_signed c \<and> 2 ^ (8 * n - 1) \<le> u then u - 2 ^ (8 * n) else u)"

record packer =
  endian :: endianity
  codes :: "format_code list"

definition packer_size :: "packer \<Rightarrow> nat" where
  "packer_size p = sum_list (map code_size (codes p))"

fun pack_all :: "endianity \<Rightarrow> format_code list \<Rightarrow> pyval list \<Rightarrow> byte list result" where
  "pack_all e [] [] = Inr []"
| "pack_all e (c # cs) (v # vs) =
     (case pack_int e c v of
        Inl x \<Rightarrow> Inl x
      | Inr b \<Rightarrow> (case pack_all e cs vs of Inl x \<Rightarrow> Inl x | Inr bs \<Rightarrow> Inr (b @ bs)))"
| "pack_all e cs vs = Inl StructError"

fun unpack_all :: "endianity \<Rightarrow> format_code list \<Rightarrow> byte list \<Rightarrow> int list" where
  "unpack_all e [] bs = []"
| "unpack_all e (c # cs) bs =
     unpack_int e c (take (code_size c) bs) # unpack_all e cs (drop (code_size c) bs)"

definition packer_pack :: "packer \<Rightarrow> pyval list \<Rightarrow> byte list result" where
  "packer_pack p vs = pack_all (endian p) (codes p) vs"

definition packer_unpack :: "packer \<Rightarrow> byte list \<Rightarrow> int list result" where
  "packer_unpack p bs =
     (if length bs \<noteq> packer_size p then Inl StructError
      else Inr (unpack_all (endian p) (codes p) bs))"

text \<open>\<open>int2byte(i)\<close> is \<open>bytes((i,))\<close>, which accepts 0 through 255 only.\<close>

definition int2byte :: "int \<Rightarrow> byte list result" where
  "int2byte i = (if 0 \<le> i \<and> i < 256 then Inr [word_of_int i] else Inl ValueError)"

subsection \<open>FormatField\<close>

text \<open>
  \<open>FormatField\<close> with a single format character; the macros \<open>UBInt8\<close> (\<open>Byte\<close>),
  \<open>UBInt16\<close>, \<open>UBInt32\<close> are \<open>FormatField(name, ">", c)\<close> with \<open>c\<close> one of \<open>B H L\<close>.
  Whatever goes wrong in \<open>_parse\<close> and \<open>_build\<close> is raised again as a field error.
\<close>

definition FormatField_parse ::
  "packer \<Rightarrow> int \<Rightarrow> byte list \<Rightarrow> nat \<Rightarrow> ctxt \<Rightarrow> pyval result \<times> nat \<times> ctxt" where
  "FormatField_parse pk len data pos context =
     (case read_stream data pos len of
        (Inl e, pos') \<Rightarrow> (Inl FieldError, pos', context)
      | (Inr d, pos') \<Rightarrow>
          (case packer_unpack pk d of
             Inl e \<Rightarrow> (Inl FieldError, pos', context)
           | Inr vals \<Rightarrow>
               (case vals of
                  [] \<Rightarrow> (Inl FieldError, pos', context)
                | v # rest \<Rightarrow> (Inr (VInt v), pos', context))))"

definition FormatField_build ::
  "packer \<Rightarrow> int \<Rightarrow> pyval \<Rightarrow> stream \<Rightarrow> ctxt \<Rightarrow> unit result \<times> stream \<times> ctxt" where
  "FormatField_build pk len obj s context =
     (case packer_pack pk [obj] of
        Inl e \<Rightarrow> (Inl FieldError, s, context)
      | Inr d \<Rightarrow>
          (case write_stream s len d of
             (Inl e, s') \<Rightarrow> (Inl FieldError, s', context)
           | (Inr u, s') \<Rightarrow> (Inr u, s', context)))"

definition StaticField_sizeof :: "int \<Rightarrow> ctxt \<Rightarrow> int result" where
  "StaticField_sizeof len context = Inr len"

definition FormatField :: "string option \<Rightarrow> endianity \<Rightarrow> format_code \<Rightarrow> construct result" where
  "FormatField name endianity format =
     (let pk = \<lparr>endian = endianity, codes = [format]\<rparr>; len = int (packer_size pk)
      in case Construct_init name 0 of
           Inl e \<Rightarrow> Inl e
         | Inr (n, f) \<Rightarrow>
             Inr \<lparr>con_class = ''FormatField'', con_name = n, conflags = f,
                  con_parse = FormatField_parse pk len,
                  con_build = FormatField_build pk len,
                  con_sizeof = StaticField_sizeof len\<rparr>)"

subsection \<open>ULInt24\<close>

definition ULInt24_packer :: packer where
  "ULInt24_packer = \<lparr>endian = LittleEndian, codes = [Code_B, Code_H]\<rparr>"

definition ULInt24_parse ::
  "byte list \<Rightarrow> nat \<Rightarrow> ctxt \<Rightarrow> pyval result \<times> nat \<times> ctxt" where
  "ULInt24_parse data pos context =
     (case read_stream data pos (int (packer_size ULInt24_packer)) of
        (Inl e, pos') \<Rightarrow> (Inl e, pos', context)
      | (Inr d, pos') \<Rightarrow>
          (case packer_unpack ULInt24_packer d of
             Inl e \<Rightarrow> (Inl e, pos', context)
           | Inr vals \<Rightarrow>
               (case vals of
                  [v0, v1] \<Rightarrow> (Inr (VInt (v0 + push_bit 8 v1)), pos', context)
                | _ \<Rightarrow> (Inl IndexError, pos', context))))"

definition ULInt24_build ::
  "pyval \<Rightarrow> stream \<Rightarrow> ctxt \<Rightarrow> unit result \<times> stream \<times> ctxt" where
  "ULInt24_build obj s context =
     (case obj of
        VInt i \<Rightarrow>
          (case packer_pack ULInt24_packer [VInt (i mod 256), VInt (drop_bit 8 i)] of
             Inl e \<Rightarrow> (Inl e, s, context)
           | Inr d \<Rightarrow>
               (case write_stream s (int (packer_size ULInt24_packer)) d of
                  (r, s') \<Rightarrow> (r, s', context)))
      | _ \<Rightarrow> (Inl TypeError, s, context))"

definition ULInt24 :: "string option \<Rightarrow> construct result" where
  "ULInt24 name =
     (case Construct_init name 0 of
        Inl e \<Rightarrow> Inl e
      | Inr (n, f) \<Rightarrow>
          Inr \<lparr>con_class = ''ULInt24'', con_name = n, conflags = f,
               con_parse = ULInt24_parse, con_build = ULInt24_build,
               con_sizeof = StaticField_sizeof (int (packer_size ULInt24_packer))\<rparr>)"

subsection \<open>VarInt\<close>

text \<open>
  The loop of \<open>VarInt._parse\<close>: \<open>ord\<close> of the byte read, seven more bits shifted into the
  accumulator, until a byte without the high bit.
\<close>

function VarInt_parse_loop :: "byte list \<Rightarrow> nat \<Rightarrow> int \<Rightarrow> int result \<times> nat" where
  "VarInt_parse_loop data pos acc =
     (case read_stream data pos 1 of
        (Inl e, pos') \<Rightarrow> (Inl e, pos')
      | (Inr d, pos') \<Rightarrow>
          (case d of
             [c] \<Rightarrow>
               (let b = uint c; acc' = push_bit 7 acc OR (b AND 127)
                in if b AND 128 = 0 then (Inr acc', pos') else VarInt_parse_loop data pos' acc')
           | _ \<Rightarrow> (Inl TypeError, pos')))"
  by pat_completeness auto
termination
  by (relation "measure (\<lambda>(data, pos, acc). length data - pos)")
     (auto simp: read_stream_def stream_read_def Let_def split: if_splits)

declare VarInt_parse_loop.simps [simp del]

definition VarInt_parse ::
  "byte list \<Rightarrow> nat \<Rightarrow> ctxt \<Rightarrow> pyval result \<times> nat \<times> ctxt" where
  "VarInt_parse data pos context =
     (case VarInt_parse_loop data pos 0 of
        (Inl e, pos') \<Rightarrow> (Inl e, pos', context)
      | (Inr acc, pos') \<Rightarrow> (Inr (VInt acc), pos', context))"

text \<open>The loop of \<open>VarInt._build\<close>, entered once the value is known not to be negative.\<close>

function VarInt_build_loop :: "int \<Rightarrow> stream \<Rightarrow> unit result \<times> stream" where
  "VarInt_build_loop obj s =
     (if obj > 127 then
        (let b = 128 OR (obj AND 127); obj' = drop_bit 7 obj
         in case int2byte b of
              Inl e \<Rightarrow> (Inl e, s)
            | Inr d \<Rightarrow>
                (case write_stream s 1 d of
                   (Inl e, s') \<Rightarrow> (Inl e, s')
                 | (Inr u, s') \<Rightarrow> VarInt_build_loop obj' s'))
      else
        (case int2byte obj of
           Inl e \<Rightarrow> (Inl e, s)
         | Inr d \<Rightarrow> write_stream s 1 d))"
  by pat_completeness auto
termination
  by (relation "measure (\<lambda>(obj, s). nat obj)") (auto simp: drop_bit_eq_div)

declare VarInt_build_loop.simps [simp del]

definition VarInt_build ::
  "pyval \<Rightarrow> stream \<Rightarrow> ctxt \<Rightarrow> unit result \<times> stream \<times> ctxt" where
  "VarInt_build obj s context =
     (case obj of
        VInt i \<Rightarrow>
          if i < 0 then (Inl ValueError, s, context)
          else (case VarInt_build_loop i s of (r, s') \<Rightarrow> (r, s', context))
      | _ \<Rightarrow> (Inl TypeError, s, context))"

definition VarInt_sizeof :: "ctxt \<Rightarrow> int result" where
  "VarInt_sizeof context = Inl SizeofError"

definition VarInt :: "string option \<Rightarrow> construct result" where
  "VarInt name =
     (case Construct_init name 0 of
        Inl e \<Rightarrow> Inl e
      | Inr (n, f) \<Rightarrow>
          Inr \<lparr>con_class = ''VarInt'', con_name = n, conflags = f,
               con_parse = VarInt_parse, con_build = VarInt_build,
               con_sizeof = VarInt_sizeof\<rparr>)"

text \<open>
  The base-128 varint of Protocol Buffers, as its documentation defines it: the 7-bit groups
  of the value, least significant group first, every byte but the last with the high bit
  set; decoding adds up the groups, the first one weighing least.
\<close>

function protobuf_encode :: "nat \<Rightarrow> byte list" where
  "protobuf_encode n =
     (if n < 128 then [of_nat n] else of_nat (128 + n mod 128) # protobuf_encode (n div 128))"
  by pat_completeness auto
termination
  by (relation "measure id") auto

declare protobuf_encode.simps [simp del]

fun protobuf_decode :: "byte list \<Rightarrow> nat" where
  "protobuf_decode [] = 0"
| "protobuf_decode (b # bs) =
     unat b mod 128 + (if unat b < 128 then 0 else 128 * protobuf_decode bs)"

subsection \<open>CString\<close>

text \<open>
  A text codec is given by its two directions; \<open>encoding = None\<close> means byte strings are
  passed through, and \<open>_encode_string\<close> then refuses anything that is not a byte string.
\<close>

record codec =
  codec_encode :: "pyval \<Rightarrow> byte list result"
  codec_decode :: "byte list \<Rightarrow> pyval result"

definition encode_string :: "pyval \<Rightarrow> codec option \<Rightarrow> byte list result" where
  "encode_string obj encoding =
     (case encoding of
        Some cd \<Rightarrow> codec_encode cd obj
      | None \<Rightarrow> (case obj of VBytes b \<Rightarrow> Inr b | _ \<Rightarrow> Inl StringError))"

definition decode_string :: "byte list \<Rightarrow> codec option \<Rightarrow> pyval result" where
  "decode_string obj encoding =
     (case encoding of Some cd \<Rightarrow> codec_decode cd obj | None \<Rightarrow> Inr (VBytes obj))"

text \<open>
  The codec \<open>"ascii"\<close> of the standard library: \<open>obj.encode("ascii")\<close> is defined on
  text strings and refuses a character beyond 127; \<open>obj.decode("ascii")\<close> refuses a byte
  beyond 127 with a \<open>UnicodeDecodeError\<close>, which is a \<open>ValueError\<close>.
\<close>

definition ascii_codec :: codec where
  "ascii_codec =
     \<lparr>codec_encode =
        (\<lambda>obj. case obj of
                 VStr cs \<Rightarrow>
                   if list_all (\<lambda>c. of_char c < (128 :: nat)) cs
                   then Inr (map (\<lambda>c. of_nat (of_char c)) cs)
                   else Inl UnicodeEncodeError
               | _ \<Rightarrow> Inl AttributeError),
      codec_decode =
        (\<lambda>bs. if list_all (\<lambda>b. unat b < 128) bs
              then Inr (VStr (map (\<lambda>b. char_of (unat b)) bs))
              else Inl UnicodeDecodeError)\<rparr>"

function CString_parse_loop ::
  "byte list \<Rightarrow> byte list \<Rightarrow> nat \<Rightarrow> byte list \<Rightarrow> byte list result \<times> nat" where
  "CString_parse_loop terminators data pos obj =
     (case read_stream data pos 1 of
        (Inl e, pos') \<Rightarrow> (Inl e, pos')
      | (Inr d, pos') \<Rightarrow>
          (case d of
             [c] \<Rightarrow>
               if c \<in> set terminators then (Inr obj, pos')
               else CString_parse_loop terminators data pos' (obj @ [c])
           | _ \<Rightarrow> (Inl TypeError, pos')))"
  by pat_completeness auto
termination
  by (relation "measure (\<lambda>(terminators, data, pos, obj). length data - pos)")
     (auto simp: read_stream_def stream_read_def Let_def split: if_splits)

declare CString_parse_loop.simps [simp del]

definition CString_parse ::
  "byte list \<Rightarrow> codec option \<Rightarrow> byte list \<Rightarrow> nat \<Rightarrow> ctxt
     \<Rightarrow> pyval result \<times> nat \<times> ctxt" where
  "CString_parse terminators encoding data pos context =
     (case CString_parse_loop terminators data pos [] of
        (Inl e, pos') \<Rightarrow> (Inl e, pos', context)
      | (Inr obj, pos') \<Rightarrow>
          (case decode_string obj encoding of
             Inl e \<Rightarrow> (Inl e, pos', context)
           | Inr v \<Rightarrow> (Inr v, pos', context)))"

definition CString_build ::
  "byte list \<Rightarrow> codec option \<Rightarrow> pyval \<Rightarrow> stream \<Rightarrow> ctxt
     \<Rightarrow> unit result \<times> stream \<times> ctxt" where
  "CString_build terminators encoding obj s context =
     (case encode_string obj encoding of
        Inl e \<Rightarrow> (Inl e, s, context)
      | Inr b \<Rightarrow>
          (let obj' = b @ take 1 terminators
           in case write_stream s (int (length obj')) obj' of (r, s') \<Rightarrow> (r, s', context)))"

definition CString_sizeof :: "ctxt \<Rightarrow> int result" where
  "CString_sizeof context = Inl SizeofError"

definition CString :: "string option \<Rightarrow> byte list \<Rightarrow> codec option \<Rightarrow> construct result" where
  "CString name terminators encoding =
     (if length terminators < 1 then Inl ValueError
      else case Construct_init name 0 of
             Inl e \<Rightarrow> Inl e
           | Inr (n, f) \<Rightarrow>
               Inr \<lparr>con_class = ''CString'', con_name = n, conflags = f,
                    con_parse = CString_parse terminators encoding,
                    con_build = CString_build terminators encoding,
                    con_sizeof = CString_sizeof\<rparr>)"

section \<open>Wrappers and combinators\<close>

subsection \<open>Aligned\<close>

text \<open>\<open>__init__\<close> has refused a modulus below 2 and a pattern that is not a single byte.\<close>

definition Aligned_parse ::
  "construct \<Rightarrow> int \<Rightarrow> byte list \<Rightarrow> nat \<Rightarrow> ctxt \<Rightarrow> pyval result \<times> nat \<times> ctxt" where
  "Aligned_parse subcon modulus data pos context =
     (let position1 = pos
      in case con_parse subcon data pos context of
           (Inl e, pos', context') \<Rightarrow> (Inl e, pos', context')
         | (Inr obj, position2, context') \<Rightarrow>
             (let pad = (- (int position2 - int position1)) mod modulus
              in case read_stream data position2 pad of
                   (Inl e, pos') \<Rightarrow> (Inl e, pos', context')
                 | (Inr d, pos') \<Rightarrow> (Inr obj, pos', context')))"

definition Aligned_build ::
  "construct \<Rightarrow> int \<Rightarrow> byte list \<Rightarrow> pyval \<Rightarrow> stream \<Rightarrow> ctxt
     \<Rightarrow> unit result \<times> stream \<times> ctxt" where
  "Aligned_build subcon modulus pattern obj s context =
     (let position1 = spos s
      in case con_build subcon obj s context of
           (Inl e, s', context') \<Rightarrow> (Inl e, s', context')
         | (Inr u, s', context') \<Rightarrow>
             (let position2 = spos s';
                  pad = (- (int position2 - int position1)) mod modulus
              in case write_stream s' pad (concat (replicate (nat pad) pattern)) of
                   (r, s'') \<Rightarrow> (r, s'', context')))"

definition Aligned_sizeof :: "construct \<Rightarrow> ctxt \<Rightarrow> int result" where
  "Aligned_sizeof subcon context = con_sizeof subcon context"

definition Aligned :: "construct \<Rightarrow> int \<Rightarrow> byte list \<Rightarrow> construct result" where
  "Aligned subcon modulus pattern =
     (if modulus < 2 then Inl ValueError
      else if length pattern \<noteq> 1 then Inl PaddingError
      else case Construct_init (con_name subcon) 0 of
             Inl e \<Rightarrow> Inl e
           | Inr (n, f) \<Rightarrow>
               Inr \<lparr>con_class = ''Aligned'', con_name = n, conflags = f,
                    con_parse = Aligned_parse subcon modulus,
                    con_build = Aligned_build subcon modulus pattern,
                    con_sizeof = Aligned_sizeof subcon\<rparr>)"

subsection \<open>Peek\<close>

text \<open>
  \<open>_parse\<close> returns inside \<open>try\<close>, lets a field error pass (the result is then \<open>None\<close>),
  and seeks back in \<open>finally\<close>, whatever happened.
\<close>

definition Peek_parse ::
  "construct \<Rightarrow> byte list \<Rightarrow> nat \<Rightarrow> ctxt \<Rightarrow> pyval result \<times> nat \<times> ctxt" where
  "Peek_parse subcon data pos context =
     (case con_parse subcon data pos context of
        (Inr obj, pos', context') \<Rightarrow> (Inr obj, pos, context')
      | (Inl e, pos', context') \<Rightarrow>
          if issubclass e FieldError then (Inr VNone, pos, context') else (Inl e, pos, context'))"

definition Peek_build ::
  "construct \<Rightarrow> bool \<Rightarrow> pyval \<Rightarrow> stream \<Rightarrow> ctxt \<Rightarrow> unit result \<times> stream \<times> ctxt" where
  "Peek_build subcon performbuild obj s context =
     (if performbuild then
        (let p = spos s
         in case con_build subcon obj s context of
              (Inl e, s', context') \<Rightarrow> (Inl e, s'\<lparr>spos := p\<rparr>, context')
            | (Inr u, s', context') \<Rightarrow> (Inr u, s', context'))
      else (Inr (), s, context))"

definition Peek_sizeof :: "construct \<Rightarrow> ctxt \<Rightarrow> int result" where
  "Peek_sizeof subcon context = con_sizeof subcon context"

definition Peek :: "construct \<Rightarrow> bool \<Rightarrow> construct result" where
  "Peek subcon performbuild =
     (case Construct_init (con_name subcon) (conflags subcon) of
        Inl e \<Rightarrow> Inl e
      | Inr (n, f) \<Rightarrow>
          Inr \<lparr>con_class = ''Peek'', con_name = n, conflags = f,
               con_parse = Peek_parse subcon,
               con_build = Peek_build subcon performbuild,
               con_sizeof = Peek_sizeof subcon\<rparr>)"

subsection \<open>Union\<close>

text \<open>
  \<open>_updcon\<close>: an embedded subconstruct merges what it produced into the result with
  \<open>con.update(obj)\<close>, any other is stored under its name. \<open>update\<close> takes a container,
  or a sequence of pairs of a key and a value; an item that is no sequence is a type error,
  a sequence that is no pair a value error. Modelled from the spec: a container maps names
  to values (construct/lib/container.py is not part of the sources at hand), so a pair whose
  key is neither a text string nor \<open>None\<close> is refused here.
\<close>

definition pair_of :: "pyval \<Rightarrow> (string option \<times> pyval) result" where
  "pair_of item =
     (case seq_items item of
        None \<Rightarrow> Inl TypeError
      | Some kv \<Rightarrow>
          (case kv of
             [k, v] \<Rightarrow>
               (case k of
                  VStr n \<Rightarrow> Inr (Some n, v)
                | VNone \<Rightarrow> Inr (None, v)
                | _ \<Rightarrow> Inl TypeError)
           | _ \<Rightarrow> Inl ValueError))"

fun update_pairs :: "container \<Rightarrow> pyval list \<Rightarrow> container result" where
  "update_pairs con [] = Inr con"
| "update_pairs con (item # rest) =
     (case pair_of item of
        Inl e \<Rightarrow> Inl e
      | Inr (k, v) \<Rightarrow> update_pairs (Container_setitem con k v) rest)"

definition updcon :: "container \<Rightarrow> construct \<Rightarrow> pyval \<Rightarrow> ctxt \<Rightarrow> container result" where
  "updcon con sc obj context =
     (if is_flag (conflags sc) FLAG_EMBED then
        (case obj_container context obj of
           Some other \<Rightarrow> Inr (Container_update con other)
         | None \<Rightarrow>
             (case seq_items obj of
                None \<Rightarrow> Inl TypeError
              | Some items \<Rightarrow> update_pairs con items))
      else Inr (Container_setitem con (con_name sc) obj))"

text \<open>\<open>Union.__init__\<close> wraps every subconstruct in a \<open>Peek\<close> that performs the build.\<close>

fun Union_args :: "construct list \<Rightarrow> construct list result" where
  "Union_args [] = Inr []"
| "Union_args (sc # subcons) =
     (case Peek sc True of
        Inl e \<Rightarrow> Inl e
      | Inr a \<Rightarrow> (case Union_args subcons of Inl e \<Rightarrow> Inl e | Inr args \<Rightarrow> Inr (a # args)))"

record union =
  union_name :: "string option"
  union_subcons :: "construct list"

definition Union :: "string option \<Rightarrow> construct list \<Rightarrow> union result" where
  "Union name subcons =
     (case Construct_init name 0 of
        Inl e \<Rightarrow> Inl e
      | Inr (n, f) \<Rightarrow>
          (case Union_args subcons of
             Inl e \<Rightarrow> Inl e
           | Inr args \<Rightarrow> Inr \<lparr>union_name = n, union_subcons = args\<rparr>))"

fun Union_parse_loop ::
  "construct list \<Rightarrow> container \<Rightarrow> byte list \<Rightarrow> nat \<Rightarrow> ctxt
     \<Rightarrow> pyval result \<times> nat \<times> ctxt" where
  "Union_parse_loop [] ret data pos context = (Inr (VCont ret), pos, context)"
| "Union_parse_loop (sc # rest) ret data pos context =
     (case con_parse sc data pos context of
        (Inl e, pos', context') \<Rightarrow> (Inl e, pos', context')
      | (Inr obj, pos', context') \<Rightarrow>
          (case updcon ret sc obj context' of
             Inl e \<Rightarrow> (Inl e, pos', context')
           | Inr ret' \<Rightarrow> Union_parse_loop rest ret' data pos' context'))"

definition Union_parse ::
  "union \<Rightarrow> byte list \<Rightarrow> nat \<Rightarrow> ctxt \<Rightarrow> pyval result \<times> nat \<times> ctxt" where
  "Union_parse u data pos context = Union_parse_loop (union_subcons u) [] data pos context"

text \<open>
  \<open>_sizeof\<close>: the list of the sizes is computed first, in order, and the first failure
  leaves; \<open>max\<close> of an empty list is a value error.
\<close>

fun sizes_of :: "construct list \<Rightarrow> ctxt \<Rightarrow> int list result" where
  "sizes_of [] context = Inr []"
| "sizes_of (sc # rest) context =
     (case con_sizeof sc context of
        Inl e \<Rightarrow> Inl e
      | Inr n \<Rightarrow> (case sizes_of rest context of Inl e \<Rightarrow> Inl e | Inr ns \<Rightarrow> Inr (n # ns)))"

definition Union_sizeof :: "union \<Rightarrow> ctxt \<Rightarrow> int result" where
  "Union_sizeof u context =
     (case sizes_of (union_subcons u) context of
        Inl e \<Rightarrow> Inl e
      | Inr ns \<Rightarrow> (case ns of [] \<Rightarrow> Inl ValueError | n # rest \<Rightarrow> Inr (fold max rest n)))"

subsection \<open>Select\<close>



subsection \<open>Pointer\<close>

text \<open>
  The offset function is user code: it returns the offset or raises. A negative offset is
  sought from the end of the stream, any other from its start.
\<close>

definition Pointer_parse ::
  "(ctxt \<Rightarrow> int result) \<Rightarrow> construct \<Rightarrow> byte list \<Rightarrow> nat \<Rightarrow> ctxt
     \<Rightarrow> pyval result \<times> nat \<times> ctxt" where
  "Pointer_parse offsetfunc subcon data pos context =
     (case offsetfunc context of
        Inl e \<Rightarrow> (Inl e, pos, context)
      | Inr newpos \<Rightarrow>
          (let origpos = pos;
               target = (if newpos < 0 then seek_end (length data) newpos else nat newpos)
           in case con_parse subcon data target context of
                (Inl e, pos', context') \<Rightarrow> (Inl e, pos', context')
              | (Inr obj, pos', context') \<Rightarrow> (Inr obj, origpos, context')))"

definition Pointer_build ::
  "(ctxt \<Rightarrow> int result) \<Rightarrow> construct \<Rightarrow> pyval \<Rightarrow> stream \<Rightarrow> ctxt
     \<Rightarrow> unit result \<times> stream \<times> ctxt" where
  "Pointer_build offsetfunc subcon obj s context =
     (case offsetfunc context of
        Inl e \<Rightarrow> (Inl e, s, context)
      | Inr newpos \<Rightarrow>
          (let origpos = spos s;
               target = (if newpos < 0 then seek_end (length (sbuf s)) newpos else nat newpos)
           in case con_build subcon obj (s\<lparr>spos := target\<rparr>) context of
                (Inl e, s', context') \<Rightarrow> (Inl e, s', context')
              | (Inr u, s', context') \<Rightarrow> (Inr u, s'\<lparr>spos := origpos\<rparr>, context')))"

definition Pointer_sizeof :: "ctxt \<Rightarrow> int result" where
  "Pointer_sizeof context = Inr 0"

definition Pointer :: "(ctxt \<Rightarrow> int result) \<Rightarrow> construct \<Rightarrow> construct result" where
  "Pointer offsetfunc subcon =
     (case Construct_init (con_name subcon) (conflags subcon) of
        Inl e \<Rightarrow> Inl e
      | Inr (n, f) \<Rightarrow>
          Inr \<lparr>con_class = ''Pointer'', con_name = n, conflags = f,
               con_parse = Pointer_parse offsetfunc subcon,
               con_build = Pointer_build offsetfunc subcon,
               con_sizeof = Pointer_sizeof\<rparr>)"

subsection \<open>Range\<close>

text \<open>
  The loop of \<open>Range._parse\<close> with its \<open>except ConstructError\<close> clause. With the flag
  \<open>FLAG_COPY_CONTEXT\<close> on the subconstruct every item is parsed in a copy of the context.
  \<open>c\<close> counts the items parsed, \<open>obj\<close> holds them.
\<close>

function Range_parse_loop ::
  "int \<Rightarrow> int \<Rightarrow> construct \<Rightarrow> int \<Rightarrow> pyval list \<Rightarrow> byte list \<Rightarrow> nat \<Rightarrow> ctxt
     \<Rightarrow> pyval result \<times> nat \<times> ctxt" where
  "Range_parse_loop mincount maxcount subcon c obj data stream_pos context =
     (if c < maxcount then
        (let pos = stream_pos;
             copy = is_flag (conflags subcon) FLAG_COPY_CONTEXT
         in case con_parse subcon data stream_pos
                   (if copy then context_copy context else context) of
              (Inr item, pos', context') \<Rightarrow>
                Range_parse_loop mincount maxcount subcon (c + 1) (obj @ [item]) data pos'
                  (if copy then copy_dropped context context' else context')
            | (Inl e, pos', context') \<Rightarrow>
                if issubclass e ConstructError then
                  (if c < mincount
                   then (Inl RangeError, pos',
                         if copy then copy_dropped context context' else context')
                   else (Inr (VList obj), pos,
                         if copy then copy_dropped context context' else context'))
                else (Inl e, pos', if copy then copy_dropped context context' else context'))
      else (Inr (VList obj), stream_pos, context))"
  by pat_completeness auto
termination
  by (relation "measure (\<lambda>(mincount, maxcount, subcon, c, rest). nat (maxcount - c))") auto

declare Range_parse_loop.simps [simp del]

definition Range_parse ::
  "int \<Rightarrow> int \<Rightarrow> construct \<Rightarrow> byte list \<Rightarrow> nat \<Rightarrow> ctxt
     \<Rightarrow> pyval result \<times> nat \<times> ctxt" where
  "Range_parse mincount maxcount subcon data pos context =
     Range_parse_loop mincount maxcount subcon 0 [] data pos context"

text \<open>
  The loop of \<open>Range._build\<close> over the items, with its \<open>except ConstructError\<close> clause:
  \<open>len_obj\<close> is \<open>len(obj)\<close>, \<open>cnt\<close> counts the items built.
\<close>

fun Range_build_loop ::
  "int \<Rightarrow> construct \<Rightarrow> pyval list \<Rightarrow> int \<Rightarrow> stream \<Rightarrow> ctxt
     \<Rightarrow> unit result \<times> stream \<times> ctxt" where
  "Range_build_loop mincount subcon [] cnt s context = (Inr (), s, context)"
| "Range_build_loop mincount subcon (subobj # rest) cnt s context =
     (let copy = is_flag (conflags subcon) FLAG_COPY_CONTEXT
      in case con_build subcon subobj s (if copy then context_copy context else context) of
           (Inr u, s', context') \<Rightarrow>
             Range_build_loop mincount subcon rest (cnt + 1) s'
               (if copy then copy_dropped context context' else context')
         | (Inl e, s', context') \<Rightarrow>
             if issubclass e ConstructError then
               (if cnt < mincount
                then (Inl RangeError, s', if copy then copy_dropped context context' else context')
                else (Inr (), s', if copy then copy_dropped context context' else context'))
             else (Inl e, s', if copy then copy_dropped context context' else context'))"

definition Range_build ::
  "int \<Rightarrow> int \<Rightarrow> construct \<Rightarrow> pyval \<Rightarrow> stream \<Rightarrow> ctxt
     \<Rightarrow> unit result \<times> stream \<times> ctxt" where
  "Range_build mincount maxcount subcon obj s context =
     (case seq_items obj of
        None \<Rightarrow> (Inl RangeError, s, context)
      | Some items \<Rightarrow>
          if int (length items) < mincount \<or> int (length items) > maxcount
          then (Inl RangeError, s, context)
          else Range_build_loop mincount subcon items 0 s context)"

definition Range_sizeof :: "ctxt \<Rightarrow> int result" where
  "Range_sizeof context = Inl SizeofError"

definition Range :: "int \<Rightarrow> int \<Rightarrow> construct \<Rightarrow> construct result" where
  "Range mincount maxcount subcon =
     (if \<not> (0 \<le> mincount \<and> mincount \<le> maxcount) then Inl RangeError
      else case Construct_init (con_name subcon) (conflags subcon) of
             Inl e \<Rightarrow> Inl e
           | Inr (n, f) \<Rightarrow>
               Inr \<lparr>con_class = ''Range'', con_name = n,
                    conflags = set_flag (clear_flag f FLAG_COPY_CONTEXT) FLAG_DYNAMIC,
                    con_parse = Range_parse mincount maxcount subcon,
                    con_build = Range_build mincount maxcount subcon,
                    con_sizeof = Range_sizeof\<rparr>)"

subsection \<open>Struct: binding a parsed field\<close>

text \<open>
  The step of the loop of \<open>Struct._parse\<close> that stores the value a subconstruct without
  the embed flag has produced: a subconstruct with a name binds it in the container and in
  the context, and a name that is already in the container is refused unless
  \<open>allow_overwrite\<close> is set.
\<close>

definition Struct_parse_bind ::
  "bool \<Rightarrow> construct \<Rightarrow> pyval \<Rightarrow> container \<Rightarrow> container \<Rightarrow> (container \<times> container) result" where
  "Struct_parse_bind allow_overwrite sc subobj obj context =
     (case con_name sc of
        None \<Rightarrow> Inr (obj, context)
      | Some n \<Rightarrow>
          if Container_contains obj (Some n) \<and> \<not> allow_overwrite then Inl OverwriteError
          else Inr (Container_setitem obj (Some n) subobj,
                    Container_setitem context (Some n) subobj))"

subsection \<open>Struct\<close>

text \<open>
  The container a Struct fills is an object: \<open>Struct._parse\<close> writes into it in place, and
  an embedded Struct writes into the object of the enclosing one, which it finds in the
  context under \<open>"<obj>"\<close>. \<open>obj\<close> below is the reference to that object; a container
  found under \<open>"<obj>"\<close> by value is first made an object of the store. Anything else found
  under \<open>"<obj>"\<close> is used as it is: \<open>sc.name in obj\<close> is the membership test on a list or
  a tuple, the substring test on a text string and a type error on any other value, and the
  item assignment \<open>obj[sc.name] = subobj\<close> is a type error on all of these.
\<close>

definition is_substring :: "string \<Rightarrow> string \<Rightarrow> bool" where
  "is_substring n s = list_ex (\<lambda>i. take (length n) (drop i s) = n) [0 ..< Suc (length s)]"

definition seq_contains :: "pyval \<Rightarrow> string \<Rightarrow> bool result" where
  "seq_contains obj n =
     (case obj of
        VList xs \<Rightarrow> Inr (VStr n \<in> set xs)
      | VTuple xs \<Rightarrow> Inr (VStr n \<in> set xs)
      | VStr s \<Rightarrow> Inr (is_substring n s)
      | _ \<Rightarrow> Inl TypeError)"

definition obj_store :: "ctxt \<Rightarrow> pyval \<Rightarrow> container \<Rightarrow> ctxt" where
  "obj_store context obj c =
     (case obj of
        VRef a \<Rightarrow> context\<lparr>shared := (shared context)[a := c]\<rparr>
      | _ \<Rightarrow> context)"

definition snapshot :: "ctxt \<Rightarrow> pyval \<Rightarrow> pyval" where
  "snapshot context v = (case obj_container context v of Some c \<Rightarrow> VCont c | None \<Rightarrow> v)"

text \<open>
  The loop of \<open>Struct._parse\<close> over the subconstructs. An exception of a subconstruct
  leaves the loop with the position and the context as they are then; what the object has
  been given before stays in it.
\<close>

fun Struct_parse_loop ::
  "construct list \<Rightarrow> bool \<Rightarrow> pyval \<Rightarrow> byte list \<Rightarrow> nat \<Rightarrow> ctxt
     \<Rightarrow> pyval result \<times> nat \<times> ctxt" where
  "Struct_parse_loop [] allow_overwrite obj data pos context = (Inr obj, pos, context)"
| "Struct_parse_loop (sc # rest) allow_overwrite obj data pos context =
     (if is_flag (conflags sc) FLAG_EMBED then
        (case con_parse sc data pos (context_setitem context (Some ''<obj>'') obj) of
           (Inl e, pos', context') \<Rightarrow> (Inl e, pos', context')
         | (Inr v, pos', context') \<Rightarrow>
             Struct_parse_loop rest allow_overwrite obj data pos'
               (if context_contains context' (Some ''<obj>'')
                then context_delitem context' (Some ''<obj>'') else context'))
      else
        (case con_parse sc data pos context of
           (Inl e, pos', context') \<Rightarrow> (Inl e, pos', context')
         | (Inr subobj, pos', context') \<Rightarrow>
             (case obj_container context' obj of
                Some c \<Rightarrow>
                  (case Struct_parse_bind allow_overwrite sc subobj c (vars context') of
                     Inl e \<Rightarrow> (Inl e, pos', context')
                   | Inr (c', vars') \<Rightarrow>
                       Struct_parse_loop rest allow_overwrite obj data pos'
                         ((obj_store context' obj c')\<lparr>vars := vars'\<rparr>))
              | None \<Rightarrow>
                  (case con_name sc of
                     None \<Rightarrow> Struct_parse_loop rest allow_overwrite obj data pos' context'
                   | Some n \<Rightarrow>
                       (case seq_contains obj n of
                          Inl e \<Rightarrow> (Inl e, pos', context')
                        | Inr found \<Rightarrow>
                            (if found \<and> \<not> allow_overwrite then Inl OverwriteError
                             else Inl TypeError, pos', context'))))))"

text \<open>
  \<open>Struct._parse\<close>. Without \<open>"<obj>"\<close> in the context the Struct makes its own object
  and, when \<open>nested\<close>, rebinds its local \<open>context\<close> to a new container that holds the
  context of the caller under \<open>_\<close>; the caller's own context then keeps its entries. The
  value returned is the container as it is at the return.
\<close>

definition Struct_parse ::
  "construct list \<Rightarrow> bool \<Rightarrow> bool \<Rightarrow> byte list \<Rightarrow> nat \<Rightarrow> ctxt
     \<Rightarrow> pyval result \<times> nat \<times> ctxt" where
  "Struct_parse subcons nested allow_overwrite data pos context =
     (case map_of (vars context) (Some ''<obj>'') of
        Some given \<Rightarrow>
          (case (case given of VCont c \<Rightarrow> new_object context c | _ \<Rightarrow> (given, context)) of
             (obj, context1) \<Rightarrow>
               (case Struct_parse_loop subcons allow_overwrite obj data pos
                       (context_delitem context1 (Some ''<obj>'')) of
                  (Inl e, pos', context') \<Rightarrow> (Inl e, pos', context')
                | (Inr v, pos', context') \<Rightarrow> (Inr (snapshot context' v), pos', context')))
      | None \<Rightarrow>
          (case new_object context [] of
             (obj, context1) \<Rightarrow>
               if nested then
                 (case Struct_parse_loop subcons allow_overwrite obj data pos
                         \<lparr>vars = [(Some ''_'', VCont (vars context1))],
                          shared = shared context1\<rparr> of
                    (Inl e, pos', context') \<Rightarrow> (Inl e, pos', copy_dropped context1 context')
                  | (Inr v, pos', context') \<Rightarrow>
                      (Inr (snapshot context' v), pos', copy_dropped context1 context'))
               else
                 (case Struct_parse_loop subcons allow_overwrite obj data pos context1 of
                    (Inl e, pos', context') \<Rightarrow> (Inl e, pos', context')
                  | (Inr v, pos', context') \<Rightarrow> (Inr (snapshot context' v), pos', context'))))"

text \<open>
  \<open>Struct._build\<close>. \<open>obj[sc.name]\<close> is a key error when the container has no such name
  and a type error when \<open>obj\<close> is no container. The classes excepted by \<open>isinstance\<close>
  have no subclass in construct/core.py, so that the test is one on the class of \<open>sc\<close>;
  \<open>True\<close> is the integer 1.
\<close>

definition obj_getitem :: "ctxt \<Rightarrow> pyval \<Rightarrow> string \<Rightarrow> pyval result" where
  "obj_getitem context obj n =
     (case obj_container context obj of
        Some c \<Rightarrow> (case map_of c (Some n) of Some v \<Rightarrow> Inr v | None \<Rightarrow> Inl KeyError)
      | None \<Rightarrow> Inl TypeError)"

definition Struct_build_subobj :: "construct \<Rightarrow> pyval \<Rightarrow> ctxt \<Rightarrow> (pyval \<times> ctxt) result" where
  "Struct_build_subobj sc obj context =
     (if is_flag (conflags sc) FLAG_EMBED
      then Inr (obj, context_setitem context (Some ''<unnested>'') (VInt 1))
      else case con_name sc of
             None \<Rightarrow> Inr (VNone, context)
           | Some n \<Rightarrow>
               if con_class sc \<in> set [''Computed'', ''Anchor'', ''AnchorRange'', ''Checksum'']
               then Inr (VNone, context)
               else (case obj_getitem context obj n of
                       Inl e \<Rightarrow> Inl e
                     | Inr subobj \<Rightarrow> Inr (subobj, context_setitem context (Some n) subobj)))"

fun Struct_build_loop ::
  "construct list \<Rightarrow> pyval \<Rightarrow> stream \<Rightarrow> ctxt \<Rightarrow> unit result \<times> stream \<times> ctxt" where
  "Struct_build_loop [] obj s context = (Inr (), s, context)"
| "Struct_build_loop (sc # rest) obj s context =
     (case Struct_build_subobj sc obj context of
        Inl e \<Rightarrow> (Inl e, s, context)
      | Inr (subobj, context1) \<Rightarrow>
          (case con_build sc subobj s context1 of
             (Inl e, s', context') \<Rightarrow> (Inl e, s', context')
           | (Inr u, s', context') \<Rightarrow> Struct_build_loop rest obj s' context'))"

definition Struct_build ::
  "construct list \<Rightarrow> bool \<Rightarrow> pyval \<Rightarrow> stream \<Rightarrow> ctxt \<Rightarrow> unit result \<times> stream \<times> ctxt" where
  "Struct_build subcons nested obj s context =
     (if context_contains context (Some ''<unnested>'')
      then Struct_build_loop subcons obj s (context_delitem context (Some ''<unnested>''))
      else if nested then
        (case Struct_build_loop subcons obj s
                \<lparr>vars = [(Some ''_'', VCont (vars context))], shared = shared context\<rparr> of
           (r, s', context') \<Rightarrow> (r, s', copy_dropped context context'))
      else Struct_build_loop subcons obj s context)"

definition Struct_sizeof :: "construct list \<Rightarrow> ctxt \<Rightarrow> int result" where
  "Struct_sizeof subcons context =
     (case sizes_of subcons context of Inl e \<Rightarrow> Inl e | Inr ns \<Rightarrow> Inr (sum_list ns))"

text \<open>
  \<open>Struct.__init__(name, *subcons, nested, allow_overwrite)\<close>: the flags of the
  subconstructs are inherited, the embed flag is cleared.
\<close>

definition Struct :: "string option \<Rightarrow> construct list \<Rightarrow> bool \<Rightarrow> bool \<Rightarrow> construct result" where
  "Struct name subcons nested allow_overwrite =
     (case Construct_init name 0 of
        Inl e \<Rightarrow> Inl e
      | Inr (n, f) \<Rightarrow>
          Inr \<lparr>con_class = ''Struct'', con_name = n,
               conflags = clear_flag (fold (\<lambda>sc flags. set_flag flags (conflags sc)) subcons f)
                            FLAG_EMBED,
               con_parse = Struct_parse subcons nested allow_overwrite,
               con_build = Struct_build subcons nested,
               con_sizeof = Struct_sizeof subcons\<rparr>)"

subsection \<open>Attempts and runs of a subconstruct\<close>


definition item_parse ::
  "construct \<Rightarrow> byte list \<Rightarrow> nat \<Rightarrow> ctxt \<Rightarrow> pyval result \<times> nat \<times> ctxt" where
  "item_parse subcon data pos context =
     (let copy = is_flag (conflags subcon) FLAG_COPY_CONTEXT
      in case con_parse subcon data pos (if copy then context_copy context else context) of
           (r, pos', context') \<Rightarrow>
             (r, pos', if copy then copy_dropped context context' else context'))"

fun parse_items ::
  "construct \<Rightarrow> nat \<Rightarrow> byte list \<Rightarrow> nat \<Rightarrow> ctxt
     \<Rightarrow> (pyval list \<times> nat \<times> ctxt) option" where
  "parse_items subcon 0 data pos context = Some ([], pos, context)"
| "parse_items subcon (Suc k) data pos context =
     (case item_parse subcon data pos context of
        (Inr item, pos', context') \<Rightarrow>
          (case parse_items subcon k data pos' context' of
             Some (items, p, c) \<Rightarrow> Some (item # items, p, c)
           | None \<Rightarrow> None)
      | (Inl e, pos', context') \<Rightarrow> None)"

definition item_build ::
  "construct \<Rightarrow> pyval \<Rightarrow> stream \<Rightarrow> ctxt \<Rightarrow> unit result \<times> stream \<times> ctxt" where
  "item_build subcon subobj s context =
     (let copy = is_flag (conflags subcon) FLAG_COPY_CONTEXT
      in case con_build subcon subobj s (if copy then context_copy context else context) of
           (r, s', context') \<Rightarrow>
             (r, s', if copy then copy_dropped context context' else context'))"

fun build_items ::
  "construct \<Rightarrow> pyval list \<Rightarrow> stream \<Rightarrow> ctxt \<Rightarrow> (stream \<times> ctxt) option" where
  "build_items subcon [] s context = Some (s, context)"
| "build_items subcon (subobj # rest) s context =
     (case item_build subcon subobj s context of
        (Inr u, s', context') \<Rightarrow> build_items subcon rest s' context'
      | (Inl e, s', context') \<Rightarrow> None)"

subsection \<open>Integer macros\<close>

text \<open>
  Modelled from the spec: the endian and bit-width integer aliases are declared in
  construct/macros.py, which is not part of the sources at hand; \<open>UBInt8(name)\<close> is
  \<open>FormatField(name, ">", "B")\<close>, and likewise \<open>UBInt16\<close> with \<open>H\<close> and \<open>UBInt32\<close> with
  \<open>L\<close>. \<open>projr\<close> takes the construct out of the result of the constructor.
\<close>

definition UBInt8 :: "string option \<Rightarrow> construct" where
  "UBInt8 name = projr (FormatField name BigEndian Code_B)"

definition UBInt16 :: "string option \<Rightarrow> construct" where
  "UBInt16 name = projr (FormatField name BigEndian Code_H)"


section \<open>Properties\<close>

subsection \<open>What the constructors return\<close>

lemma made: "isl r = False \<Longrightarrow> r = Inr (projr r)"
  by (cases r) simp_all

lemma FormatField_methods:
  assumes "FormatField name e f = Inr c"
  shows "con_name c = name" and "conflags c = 0"
    and "con_parse c = FormatField_parse \<lparr>endian = e, codes = [f]\<rparr> (int (code_size f))"
    and "con_build c = FormatField_build \<lparr>endian = e, codes = [f]\<rparr> (int (code_size f))"
    and "con_sizeof c = StaticField_sizeof (int (code_size f))"
  using assms
  by (auto simp: FormatField_def Construct_init_def packer_size_def Let_def
      split: option.splits if_splits)

lemma ULInt24_methods:
  assumes "ULInt24 name = Inr c"
  shows "con_parse c = ULInt24_parse" and "con_build c = ULInt24_build"
  using assms
  by (auto simp: ULInt24_def Construct_init_def split: option.splits if_splits)

lemma Peek_methods:
  assumes "Peek sc b = Inr a"
  shows "con_parse a = Peek_parse sc" and "con_sizeof a = Peek_sizeof sc"
  using assms
  by (auto simp: Peek_def Construct_init_def split: option.splits if_splits)

subsection \<open>The error taxonomy\<close>

text \<open>
  C4, as stated, fails: the overwrite error that \<open>Struct._parse\<close> raises for a name that
  is already in the container derives from the built-in \<open>ValueError\<close>, not from
  \<open>ConstructError\<close>, so a handler for the root kind does not catch it.
\<close>

theorem overwrite_error_not_under_root:
  "Struct_parse_bind False (UBInt8 (Some ''a'')) (VInt 2) [(Some ''a'', VInt 1)]
       [(Some ''a'', VInt 1)] = Inl OverwriteError
   \<and> base OverwriteError = Some ValueError
   \<and> issubclass OverwriteError ConstructError = False"
  by code_simp

text \<open>
  C4, amended: of the thirteen kinds of the taxonomy, all but the overwrite error are direct
  children of the root kind; validation, mapping and bit-integer errors are children of the
  adaptation error; a handler for the root kind catches every one of these kinds except the
  overwrite error, which is a child of the built-in \<open>ValueError\<close>.
\<close>

theorem error_taxonomy_under_root:
  "filter (\<lambda>c. base c \<noteq> Some ConstructError) taxonomy = [OverwriteError]
   \<and> map base adaptation_subkinds =
       [Some AdaptationError, Some AdaptationError, Some AdaptationError]
   \<and> filter (\<lambda>c. \<not> issubclass c ConstructError) (taxonomy @ adaptation_subkinds) =
       [OverwriteError]
   \<and> base OverwriteError = Some ValueError"
  by code_simp

subsection \<open>ULInt24\<close>

lemma uint_byte_of_int: "uint (word_of_int x :: byte) = x mod 256"
  by (simp add: uint_word_of_int)

lemma byte_of_int_mod: "(word_of_int (v mod 256) :: byte) = word_of_int v"
  by (simp add: word_uint_eq_iff uint_word_of_int)

lemma three_bytes:
  assumes "0 \<le> v" "v < 2 ^ 24"
  shows "v mod 256 + 256 * (v div 256 mod 256 + 256 * (v div 65536 mod 256)) = (v::int)"
proof -
  define M where "M = v mod 256"
  define D where "D = v div 256"
  define N where "N = D mod 256"
  define E where "E = D div 256"
  have "E < 256" "0 \<le> E" using assms by (simp_all add: E_def D_def)
  then have a: "E mod 256 = E" by simp
  have b: "v div 65536 = E" by (simp add: E_def D_def div_mult2_eq)
  have e1: "v = 256 * D + M" by (simp add: D_def M_def)
  have e2: "D = 256 * E + N" by (simp add: E_def N_def)
  have "M + 256 * (N + 256 * E) = v" using e1 e2 by simp
  then show ?thesis by (simp only: a b M_def [symmetric] D_def [symmetric] N_def [symmetric])
qed

lemma ULInt24_size: "packer_size ULInt24_packer = 3"
  by (simp add: ULInt24_packer_def packer_size_def)

lemma ULInt24_pack:
  assumes "0 \<le> v" "v < 2 ^ 24"
  shows "packer_pack ULInt24_packer [VInt (v mod 256), VInt (drop_bit 8 v)] =
           Inr [word_of_int v, word_of_int (v div 256), word_of_int (v div 65536)]"
proof -
  have b: "0 \<le> v div 256" "v div 256 < 65536" using assms by auto
  have c: "v div 256 div 256 = v div 65536" by (simp add: div_mult2_eq)
  have p1: "pack_int LittleEndian Code_B (VInt (v mod 256)) = Inr [word_of_int v]"
    by (simp add: pack_int_def byte_order_def byte_of_int_mod)
  have p2: "pack_int LittleEndian Code_H (VInt (v div 256)) =
              Inr [word_of_int (v div 256), word_of_int (v div 65536)]"
    using b by (simp add: pack_int_def byte_order_def numeral_2_eq_2 c)
  show ?thesis
    by (simp add: ULInt24_packer_def packer_pack_def drop_bit_eq_div p1 p2)
qed

lemma ULInt24_build_bytes:
  assumes "0 \<le> v" "v < 2 ^ 24"
  shows "ULInt24_build (VInt v) (BytesIO []) context =
           (Inr (), \<lparr>sbuf = [word_of_int v, word_of_int (v div 256), word_of_int (v div 65536)],
                      spos = 3\<rparr>, context)"
  by (simp add: ULInt24_build_def ULInt24_pack [OF assms] write_stream_def stream_write_def
      BytesIO_def ULInt24_size)

lemma ULInt24_parse_bytes:
  "ULInt24_parse [b0, b1, b2] 0 context =
     (Inr (VInt (uint b0 + 256 * (uint b1 + 256 * uint b2))), 3, context)"
  by (simp add: ULInt24_parse_def ULInt24_packer_def packer_size_def read_stream_def
      stream_read_def Let_def packer_unpack_def unpack_int_def byte_order_def push_bit_eq_mult
      numeral_2_eq_2)

text \<open>
  C8: the 24-bit little-endian field parses the bytes 01 02 03 to 0x030201; for every
  integer \<open>v\<close> with \<open>0 \<le> v < 2^24\<close>, \<open>build\<close> produces exactly the three bytes of \<open>v\<close>,
  least significant first, and \<open>parse\<close> of these bytes gives \<open>v\<close> back.
\<close>

theorem ULInt24_roundtrip:
  assumes "ULInt24 name = Inr c" and "0 \<le> v" and "v < 2 ^ 24"
  shows "parse c [1, 2, 3] = Inr (VInt 0x030201)
       \<and> (\<exists>bs. build c (VInt v) = Inr bs \<and> length bs = 3 \<and> parse c bs = Inr (VInt v))
       \<and> build c (VInt v) =
           Inr [word_of_int v, word_of_int (v div 256), word_of_int (v div 65536)]"
proof -
  let ?bs = "[word_of_int v, word_of_int (v div 256), word_of_int (v div 65536)] :: byte list"
  have m: "con_parse c = ULInt24_parse" "con_build c = ULInt24_build"
    using ULInt24_methods [OF assms(1)] by simp_all
  have p: "parse c [1, 2, 3] = Inr (VInt 0x030201)"
    by (simp add: parse_def m ULInt24_parse_bytes)
  have b: "build c (VInt v) = Inr ?bs"
    by (simp add: build_def m ULInt24_build_bytes [OF assms(2,3)] getvalue_def)
  have r: "uint (word_of_int v :: byte)
             + 256 * (uint (word_of_int (v div 256) :: byte)
                      + 256 * uint (word_of_int (v div 65536) :: byte)) = v"
    by (simp only: uint_byte_of_int three_bytes [OF assms(2,3)])
  have "parse c ?bs = Inr (VInt v)"
    unfolding parse_def m ULInt24_parse_bytes r by simp
  with p b show ?thesis by simp
qed

theorem ULInt24_roundtrip_witness:
  "ULInt24 None = Inr (projr (ULInt24 None)) \<and> (0::int) \<le> 70000 \<and> (70000::int) < 2 ^ 24
   \<and> parse (projr (ULInt24 None)) [1, 2, 3] = Inr (VInt 0x030201)
   \<and> build (projr (ULInt24 None)) (VInt 70000) = Inr [0x70, 0x11, 0x01]
   \<and> parse (projr (ULInt24 None)) [0x70, 0x11, 0x01] = Inr (VInt 70000)"
proof -
  let ?c = "projr (ULInt24 None)"
  have h: "ULInt24 None = Inr ?c"
    by (simp add: ULInt24_def Construct_init_def)
  have e: "[word_of_int 70000, word_of_int (70000 div 256), word_of_int (70000 div 65536)] =
             ([0x70, 0x11, 0x01] :: byte list)"
    by simp
  note t = ULInt24_roundtrip [OF h, of 70000, unfolded e]
  have z: "(0::int) \<le> 70000" "(70000::int) < 2 ^ 24" by simp_all
  from t [OF z] have b0: "parse ?c [1, 2, 3] = Inr (VInt 0x030201)"
    and b3: "build ?c (VInt 70000) = Inr [0x70, 0x11, 0x01]"
    by simp_all
  from t [OF z] obtain bs where b1: "build ?c (VInt 70000) = Inr bs"
    and b2: "parse ?c bs = Inr (VInt 70000)"
    by blast
  from b1 b3 have "bs = [0x70, 0x11, 0x01]" by simp
  with b2 have "parse ?c [0x70, 0x11, 0x01] = Inr (VInt 70000)" by simp
  with b0 b3 h show ?thesis by simp
qed

subsection \<open>VarInt\<close>

lemma and_127: "(v::int) AND 127 = v mod 128"
proof -
  have "v AND mask 7 = take_bit 7 v" by (simp add: take_bit_eq_mask)
  moreover have "(mask 7 :: int) = 127" by (simp add: mask_eq_exp_minus_1)
  ultimately show ?thesis by (simp add: take_bit_eq_mod)
qed

lemma push_and_take: "push_bit n (a::int) AND take_bit n v = 0"
  by (rule bit_eqI) (auto simp: bit_simps)

lemma or_128: "(128::int) OR (v AND 127) = 128 + v mod 128"
proof -
  have "push_bit 7 (1::int) + take_bit 7 v = push_bit 7 1 OR take_bit 7 v"
    by (rule disjunctive_add_eq_or) (rule push_and_take)
  then show ?thesis by (simp add: and_127 take_bit_eq_mod)
qed

lemma byte_of_nat_int: "0 \<le> v \<Longrightarrow> (word_of_int v :: byte) = of_nat (nat v)"
  by simp

lemma continuation_byte:
  assumes "0 \<le> v"
  shows "(word_of_int (128 + v mod 128) :: byte) = of_nat (128 + nat v mod 128)"
proof -
  have "nat (128 + v mod 128) = 128 + nat v mod 128"
    using assms by (simp add: nat_add_distrib nat_mod_distrib)
  moreover have "0 \<le> 128 + v mod 128" by simp
  ultimately show ?thesis by (metis byte_of_nat_int)
qed

lemma write_stream_end:
  "spos s = length (sbuf s) \<Longrightarrow>
     write_stream s 1 [b] = (Inr (), \<lparr>sbuf = sbuf s @ [b], spos = length (sbuf s) + 1\<rparr>)"
  by (simp add: write_stream_def stream_write_def Let_def)

lemma VarInt_build_loop_protobuf:
  "0 \<le> v \<Longrightarrow> spos s = length (sbuf s) \<Longrightarrow>
     VarInt_build_loop v s =
       (Inr (), \<lparr>sbuf = sbuf s @ protobuf_encode (nat v),
                  spos = length (sbuf s) + length (protobuf_encode (nat v))\<rparr>)"
proof (induction v s rule: VarInt_build_loop.induct)
  case (1 obj s)
  show ?case
  proof (cases "obj > 127")
    case False
    with "1.prems" have i: "int2byte obj = Inr [of_nat (nat obj)]"
      by (simp add: int2byte_def)
    from False "1.prems" have "nat obj < 128" by arith
    then have p: "protobuf_encode (nat obj) = [of_nat (nat obj)]"
      by (subst protobuf_encode.simps) simp
    show ?thesis
      using False "1.prems"(2)
      by (subst VarInt_build_loop.simps) (simp add: i p write_stream_end)
  next
    case True
    define b :: byte where "b = of_nat (128 + nat obj mod 128)"
    let ?s = "\<lparr>sbuf = sbuf s @ [b], spos = length (sbuf s) + 1\<rparr>"
    have o: "(128::int) OR (obj AND 127) = 128 + obj mod 128" by (rule or_128)
    have r: "0 \<le> 128 + obj mod 128 \<and> 128 + obj mod 128 < 256" by simp
    have i: "int2byte (128 + obj mod 128) = Inr [b]"
      unfolding int2byte_def continuation_byte [OF "1.prems"(1)] b_def using r by simp
    have w: "write_stream s 1 [b] = (Inr (), ?s)"
      using "1.prems"(2) by (rule write_stream_end)
    have d: "drop_bit 7 obj = obj div 128" by (simp add: drop_bit_eq_div)
    have n: "nat (obj div 128) = nat obj div 128"
      using "1.prems"(1) by (simp add: nat_div_distrib)
    have "VarInt_build_loop (drop_bit 7 obj) ?s =
            (Inr (), \<lparr>sbuf = sbuf ?s @ protobuf_encode (nat (drop_bit 7 obj)),
                       spos = length (sbuf ?s) + length (protobuf_encode (nat (drop_bit 7 obj)))\<rparr>)"
    proof (rule "1.IH" [OF True refl refl _ w [symmetric] refl])
      show "int2byte (128 OR (obj AND 127)) = Inr [b]" by (simp only: o i)
      show "0 \<le> drop_bit 7 obj" using "1.prems"(1) by (simp add: d)
      show "spos ?s = length (sbuf ?s)" by simp
    qed
    moreover from True have "\<not> nat obj < 128" by arith
    then have "protobuf_encode (nat obj) = b # protobuf_encode (nat obj div 128)"
      unfolding b_def by (subst protobuf_encode.simps) simp
    ultimately show ?thesis
      using True
      by (subst VarInt_build_loop.simps) (simp add: o i w d n Let_def)
  qed
qed


lemma VarInt_methods:
  assumes "VarInt name = Inr c"
  shows "con_parse c = VarInt_parse" and "con_build c = VarInt_build"
  using assms
  by (auto simp: VarInt_def Construct_init_def split: option.splits if_splits)

lemma VarInt_build_protobuf:
  assumes "VarInt name = Inr c"
  shows "0 \<le> v \<Longrightarrow> build c (VInt v) = Inr (protobuf_encode (nat v))"
    and "v < 0 \<Longrightarrow> build c (VInt v) = Inl ValueError"
proof -
  note m = VarInt_methods [OF assms]
  show "build c (VInt v) = Inr (protobuf_encode (nat v))" if "0 \<le> v"
  proof -
    from that have "\<not> v < 0" by simp
    then show ?thesis
      using VarInt_build_loop_protobuf [OF that, of "BytesIO []"]
      by (simp add: build_def m VarInt_build_def BytesIO_def getvalue_def)
  qed
  show "build c (VInt v) = Inl ValueError" if "v < 0"
    using that by (simp add: build_def m VarInt_build_def)
qed

lemma protobuf_roundtrip: "protobuf_decode (protobuf_encode n) = n"
proof (induction n rule: protobuf_encode.induct)
  case (1 n)
  show ?case
  proof (cases "n < 128")
    case True
    then show ?thesis
      by (subst protobuf_encode.simps) (simp add: unat_of_nat)
  next
    case False
    define b :: byte where "b = of_nat (128 + n mod 128)"
    have "n mod 128 < 128" by simp
    then have "(128 + n mod 128) mod 2 ^ LENGTH(8) = 128 + n mod 128" by simp
    then have u: "unat b = 128 + n mod 128"
      unfolding b_def by (simp only: unat_of_nat)
    have e: "protobuf_encode n = b # protobuf_encode (n div 128)"
      unfolding b_def using False by (subst protobuf_encode.simps) simp
    show ?thesis
      unfolding e using "1.IH" [OF False] by (simp add: u)
  qed
qed

lemma VarInt_documented_example:
  "parse (projr (VarInt None)) [0x85, 0x05] = Inr (VInt 645)
   \<and> build (projr (VarInt None)) (VInt 645) = Inr [0x85, 0x05]
   \<and> build (projr (VarInt None)) (VInt (- 1)) = Inl ValueError"
  by code_simp

text \<open>
  C1 does not hold of the code. \<open>VarInt._build\<close> writes the 7-bit groups least significant
  first, as Protocol Buffers do, but \<open>VarInt._parse\<close> shifts the accumulator left before
  adding each group, so it reads the first group as the most significant one. For 300 the
  bytes built are AC 02, which the Protocol Buffers decoding maps back to 300 and which
  \<open>VarInt._parse\<close> maps to 5634.
\<close>

theorem VarInt_roundtrip_fails:
  "isl (VarInt None) = False
   \<and> build (projr (VarInt None)) (VInt 300) = Inr [0xAC, 0x02]
   \<and> protobuf_encode 300 = [0xAC, 0x02]
   \<and> parse (projr (VarInt None)) [0xAC, 0x02] = Inr (VInt 5634)
   \<and> protobuf_decode [0xAC, 0x02] = 300"
  by code_simp

subsection \<open>Aligned\<close>

text \<open>
  C2 does not hold of the code. \<open>Aligned._sizeof\<close> returns the size of the subconstruct
  and leaves the padding out: for a one-byte field aligned to 4, \<open>sizeof\<close> is 1 while
  \<open>build\<close> writes 4 bytes and \<open>parse\<close> consumes 4 bytes.
\<close>

theorem Aligned_sizeof_ignores_padding:
  "isl (Aligned (UBInt8 None) 4 [0]) = False
   \<and> sizeof (projr (Aligned (UBInt8 None) 4 [0])) = Inr 1
   \<and> build (projr (Aligned (UBInt8 None) 4 [0])) (VInt 1) = Inr [1, 0, 0, 0]
   \<and> con_parse (projr (Aligned (UBInt8 None) 4 [0])) [1, 0, 0, 0] 0 new_context = (Inr (VInt 1), 4, new_context)"
  by code_simp

subsection \<open>CString\<close>

lemma read_stream_one:
  "read_stream (pre @ x # rest) (length pre) 1 = (Inr [x], Suc (length pre))"
  by (simp add: read_stream_def stream_read_def)

lemma CString_parse_loop_scan:
  assumes "set s \<inter> set T = {}" and "t \<in> set T"
  shows "CString_parse_loop T (pre @ s @ t # rest) (length pre) acc =
           (Inr (acc @ s), length pre + length s + 1)"
  using assms(1)
proof (induction s arbitrary: pre acc)
  case Nil
  show ?case
    using assms(2) by (subst CString_parse_loop.simps) (simp add: read_stream_one)
next
  case (Cons x xs)
  have "CString_parse_loop T ((pre @ [x]) @ xs @ t # rest) (length (pre @ [x])) (acc @ [x]) =
          (Inr ((acc @ [x]) @ xs), length (pre @ [x]) + length xs + 1)"
    using Cons.prems by (intro Cons.IH) auto
  then show ?case
    using Cons.prems
    by (subst CString_parse_loop.simps) (simp add: read_stream_one)
qed

lemma CString_methods:
  assumes "CString name T enc = Inr c"
  shows "con_parse c = CString_parse T enc" and "con_build c = CString_build T enc"
    and "T \<noteq> []"
  using assms
  by (auto simp: CString_def Construct_init_def split: option.splits if_splits)

text \<open>
  C7: for a \<open>CString\<close> without codec and a byte string \<open>s\<close> that contains none of the
  terminator bytes, \<open>build\<close> gives \<open>s\<close> followed by exactly one byte, the first terminator;
  \<open>parse\<close> of what \<open>build\<close> gave returns \<open>s\<close>; and parsing these bytes, whatever follows
  them, returns \<open>s\<close> without the terminator and leaves the stream just after the terminator.
\<close>

theorem CString_roundtrip:
  assumes "CString name terminators None = Inr c" and "set s \<inter> set terminators = {}"
  shows "build c (VBytes s) = Inr (s @ take 1 terminators)
       \<and> length (take 1 terminators) = 1
       \<and> parse c (s @ take 1 terminators) = Inr (VBytes s)
       \<and> con_parse c (s @ take 1 terminators @ rest) 0 context =
           (Inr (VBytes s), length s + 1, context)"
proof -
  note m = CString_methods [OF assms(1)]
  from m(3) obtain t ts where T: "terminators = t # ts" by (cases terminators) auto
  have b: "build c (VBytes s) = Inr (s @ take 1 terminators)"
    by (simp add: build_def m CString_build_def encode_string_def write_stream_def
        stream_write_def BytesIO_def getvalue_def Let_def T)
  have "CString_parse_loop terminators ([] @ s @ t # r) (length ([]::byte list)) [] =
          (Inr ([] @ s), length ([]::byte list) + length s + 1)" for r
    using assms(2) by (intro CString_parse_loop_scan) (auto simp: T)
  then have p: "con_parse c (s @ take 1 terminators @ r) 0 ctx = (Inr (VBytes s), length s + 1, ctx)"
    for r ctx
    by (simp add: m CString_parse_def decode_string_def T)
  from b p [of "[]" "new_context"] p [of rest "context"] show ?thesis by (simp add: parse_def T)
qed

theorem CString_roundtrip_witness:
  "CString None [0] None = Inr (projr (CString None [0] None))
   \<and> set [104, 105] \<inter> set [0 :: byte] = {}
   \<and> build (projr (CString None [0] None)) (VBytes [104, 105]) = Inr [104, 105, 0]
   \<and> parse (projr (CString None [0] None)) [104, 105, 0] = Inr (VBytes [104, 105])
   \<and> con_parse (projr (CString None [0] None)) [104, 105, 0, 7] 0 new_context =
       (Inr (VBytes [104, 105]), 3, new_context)"
proof -
  let ?c = "projr (CString None [0] None)"
  have h: "CString None [0] None = Inr ?c"
    by (simp add: CString_def Construct_init_def)
  have d: "set [104, 105] \<inter> set [0 :: byte] = {}" by simp
  show ?thesis
    using h d CString_roundtrip [OF h d, of "[7]" "new_context"] by simp
qed

subsection \<open>Union\<close>

lemma Peek_parse_pos: "fst (snd (Peek_parse sc data pos ctx)) = pos"
  by (simp add: Peek_parse_def split: prod.splits sum.splits)

lemma Union_args_parse:
  "Union_args scs = Inr args \<Longrightarrow> \<forall>a\<in>set args. \<exists>sc. con_parse a = Peek_parse sc"
proof (induction scs arbitrary: args)
  case Nil
  then show ?case by simp
next
  case (Cons sc scs)
  from Cons.prems obtain a rest where a: "Peek sc True = Inr a"
    and rest: "Union_args scs = Inr rest" and args: "args = a # rest"
    by (auto split: sum.splits)
  have "con_parse a = Peek_parse sc" by (rule Peek_methods(1) [OF a])
  with Cons.IH [OF rest] show ?case by (auto simp: args)
qed

lemma Union_parse_loop_pos:
  assumes "\<And>a. a \<in> set args \<Longrightarrow> \<exists>sc. con_parse a = Peek_parse sc"
  shows "fst (snd (Union_parse_loop args ret data pos ctx)) = pos"
  using assms
proof (induction args arbitrary: ret ctx)
  case Nil
  then show ?case by simp
next
  case (Cons a args)
  from Cons.prems obtain sc where a: "con_parse a = Peek_parse sc" by auto
  obtain r p c where e: "Peek_parse sc data pos ctx = (r, p, c)"
    by (cases "Peek_parse sc data pos ctx")
  then have p: "p = pos" using Peek_parse_pos [of sc data pos ctx] by simp
  show ?case
    using Cons.IH Cons.prems
    by (simp add: a e p split: sum.splits)
qed

lemma Union_args_two:
  assumes "Union_args [A, B] = Inr args"
  shows "\<exists>a b. args = [a, b] \<and> con_sizeof a = Peek_sizeof A \<and> con_sizeof b = Peek_sizeof B"
  using assms by (auto split: sum.splits dest: Peek_methods(2))

text \<open>
  C3, as stated, fails: after \<open>Union.parse\<close> the stream is where it was before, not at the
  maximum of the sizes. For the union of a one-byte and a two-byte integer parsed from
  position 0 of the bytes 01 02, the size is 2 and the position after the parse is 0.
\<close>

theorem Union_parse_leaves_position:
  "isl (Union None [UBInt8 (Some ''a''), UBInt16 (Some ''b'')]) = False
   \<and> Union_sizeof (projr (Union None [UBInt8 (Some ''a''), UBInt16 (Some ''b'')])) new_context = Inr 2
   \<and> Union_parse (projr (Union None [UBInt8 (Some ''a''), UBInt16 (Some ''b'')])) [1, 2] 0 new_context =
       (Inr (VCont [(Some ''a'', VInt 1), (Some ''b'', VInt 258)]), 0, new_context)"
  by code_simp

text \<open>
  C3, amended: for subconstructs \<open>A\<close> and \<open>B\<close> whose sizes are known, the size of
  \<open>Union(A, B)\<close> is the maximum of the two; and after \<open>Union(A, B)\<close> has parsed, the
  stream position is the position at which the parse started (every subconstruct is wrapped
  in a \<open>Peek\<close>, which seeks back), be the result a value or an exception.
\<close>

theorem Union_overlap:
  assumes "Union name [A, B] = Inr u"
    and "con_sizeof A context = Inr a" and "con_sizeof B context = Inr b"
  shows "Union_sizeof u context = Inr (max a b)
       \<and> fst (snd (Union_parse u data pos context)) = pos"
proof -
  from assms(1) obtain args where args: "Union_args [A, B] = Inr args"
    and u: "union_subcons u = args"
    by (auto simp: Union_def split: sum.splits)
  from Union_args_two [OF args] obtain pa pb where ab: "args = [pa, pb]"
    "con_sizeof pa = Peek_sizeof A" "con_sizeof pb = Peek_sizeof B" by blast
  have s: "Union_sizeof u context = Inr (max a b)"
    using assms(2,3) by (simp add: Union_sizeof_def u ab Peek_sizeof_def max.commute)
  have "fst (snd (Union_parse_loop args [] data pos context)) = pos"
    using Union_args_parse [OF args] by (intro Union_parse_loop_pos) blast
  with s show ?thesis by (simp add: Union_parse_def u)
qed

theorem Union_overlap_witness:
  "Union None [UBInt8 (Some ''a''), UBInt16 (Some ''b'')] =
     Inr (projr (Union None [UBInt8 (Some ''a''), UBInt16 (Some ''b'')]))
   \<and> con_sizeof (UBInt8 (Some ''a'')) new_context = Inr 1
   \<and> con_sizeof (UBInt16 (Some ''b'')) new_context = Inr 2
   \<and> Union_sizeof (projr (Union None [UBInt8 (Some ''a''), UBInt16 (Some ''b'')])) new_context = Inr 2
   \<and> fst (snd (Union_parse (projr (Union None [UBInt8 (Some ''a''), UBInt16 (Some ''b'')]))
         [1, 2] 0 new_context)) = 0"
proof -
  let ?X = "Union None [UBInt8 (Some ''a''), UBInt16 (Some ''b'')]"
  have h: "?X = Inr (projr ?X)" by (rule made) code_simp
  have a: "con_sizeof (UBInt8 (Some ''a'')) new_context = Inr 1" by code_simp
  have b: "con_sizeof (UBInt16 (Some ''b'')) new_context = Inr 2" by code_simp
  show ?thesis
    using h a b Union_overlap [OF h a b, of "[1, 2]" 0] by simp
qed

subsection \<open>Pointer\<close>

text \<open>
  C9: whenever \<open>Pointer._parse\<close> returns, the stream position is the position before the
  call, and the value is the one the subconstruct parsed at the offset the offset function
  gave for the context, a negative offset being sought from the end of the stream; whenever
  \<open>Pointer._build\<close> returns, the stream position is the position before the call, and the
  buffer is as the subconstruct left it after building at that offset. Conversely, when
  the offset function gives an offset and the subconstruct parses (builds) at that offset,
  \<open>Pointer._parse\<close> (\<open>Pointer._build\<close>) returns with that result and the position before
  the call. \<open>Pointer._sizeof\<close> is 0 in every context.
\<close>

theorem Pointer_frame:
  "(Pointer_parse offsetfunc subcon data pos ctx = (Inr obj, pos', ctx') \<longrightarrow>
      pos' = pos
      \<and> (\<exists>newpos p. offsetfunc ctx = Inr newpos
            \<and> con_parse subcon data
                 (if newpos < 0 then seek_end (length data) newpos else nat newpos) ctx =
                (Inr obj, p, ctx')))
   \<and> (Pointer_build offsetfunc subcon v s ctx = (Inr u, s', ctx') \<longrightarrow>
      spos s' = spos s
      \<and> (\<exists>newpos s''. offsetfunc ctx = Inr newpos
            \<and> con_build subcon v
                 (s\<lparr>spos := (if newpos < 0 then seek_end (length (sbuf s)) newpos
                              else nat newpos)\<rparr>) ctx =
                (Inr u, s'', ctx')
            \<and> sbuf s' = sbuf s''))
   \<and> (offsetfunc ctx = Inr n
        \<and> con_parse subcon data (if n < 0 then seek_end (length data) n else nat n) ctx =
            (Inr obj, p, ctx') \<longrightarrow>
      Pointer_parse offsetfunc subcon data pos ctx = (Inr obj, pos, ctx'))
   \<and> (offsetfunc ctx = Inr n
        \<and> con_build subcon v
             (s\<lparr>spos := (if n < 0 then seek_end (length (sbuf s)) n else nat n)\<rparr>) ctx =
            (Inr u, t, ctx') \<longrightarrow>
      Pointer_build offsetfunc subcon v s ctx = (Inr u, t\<lparr>spos := spos s\<rparr>, ctx'))
   \<and> Pointer_sizeof ctx = Inr 0"
proof (intro conjI impI)
  assume "Pointer_parse offsetfunc subcon data pos ctx = (Inr obj, pos', ctx')"
  then show "pos' = pos"
    by (auto simp: Pointer_parse_def Let_def split: sum.splits prod.splits if_splits)
next
  assume "Pointer_parse offsetfunc subcon data pos ctx = (Inr obj, pos', ctx')"
  then show "\<exists>newpos p. offsetfunc ctx = Inr newpos
            \<and> con_parse subcon data
                 (if newpos < 0 then seek_end (length data) newpos else nat newpos) ctx =
                (Inr obj, p, ctx')"
    by (auto simp: Pointer_parse_def Let_def split: sum.splits prod.splits if_splits)
next
  assume "Pointer_build offsetfunc subcon v s ctx = (Inr u, s', ctx')"
  then show "spos s' = spos s"
    by (auto simp: Pointer_build_def Let_def split: sum.splits prod.splits if_splits)
next
  assume "Pointer_build offsetfunc subcon v s ctx = (Inr u, s', ctx')"
  then show "\<exists>newpos s''. offsetfunc ctx = Inr newpos
            \<and> con_build subcon v
                 (s\<lparr>spos := (if newpos < 0 then seek_end (length (sbuf s)) newpos
                              else nat newpos)\<rparr>) ctx =
                (Inr u, s'', ctx')
            \<and> sbuf s' = sbuf s''"
    by (auto simp: Pointer_build_def Let_def split: sum.splits prod.splits if_splits)
next
  assume "offsetfunc ctx = Inr n
        \<and> con_parse subcon data (if n < 0 then seek_end (length data) n else nat n) ctx =
            (Inr obj, p, ctx')"
  then show "Pointer_parse offsetfunc subcon data pos ctx = (Inr obj, pos, ctx')"
    by (simp add: Pointer_parse_def Let_def)
next
  assume "offsetfunc ctx = Inr n
        \<and> con_build subcon v
             (s\<lparr>spos := (if n < 0 then seek_end (length (sbuf s)) n else nat n)\<rparr>) ctx =
            (Inr u, t, ctx')"
  then show "Pointer_build offsetfunc subcon v s ctx = (Inr u, t\<lparr>spos := spos s\<rparr>, ctx')"
    by (simp add: Pointer_build_def Let_def)
next
  show "Pointer_sizeof ctx = Inr 0" by (simp add: Pointer_sizeof_def)
qed

theorem Pointer_frame_witness:
  "con_parse (UBInt8 None) [0, 0, 7] 2 new_context = (Inr (VInt 7), 3, new_context)
   \<and> Pointer_parse (\<lambda>c. Inr 2) (UBInt8 None) [0, 0, 7] 1 new_context = (Inr (VInt 7), 1, new_context)
   \<and> Pointer_parse (\<lambda>c. Inr (- 1)) (UBInt8 None) [0, 0, 7] 1 new_context = (Inr (VInt 7), 1, new_context)
   \<and> (\<exists>newpos p. (\<lambda>c. Inr (- 1)) new_context = Inr newpos
         \<and> con_parse (UBInt8 None) [0, 0, 7]
              (if newpos < 0 then seek_end (length [0, 0, 7 :: byte]) newpos else nat newpos) new_context =
             (Inr (VInt 7), p, new_context))
   \<and> con_build (UBInt8 None) (VInt 7) \<lparr>sbuf = [], spos = 2\<rparr> new_context =
       (Inr (), \<lparr>sbuf = [0, 0, 7], spos = 3\<rparr>, new_context)
   \<and> Pointer_build (\<lambda>c. Inr 2) (UBInt8 None) (VInt 7) (BytesIO []) new_context =
       (Inr (), \<lparr>sbuf = [0, 0, 7], spos = 0\<rparr>, new_context)
   \<and> spos \<lparr>sbuf = [0, 0, 7], spos = 0\<rparr> = spos (BytesIO [])
   \<and> Pointer_sizeof new_context = Inr 0"
proof -
  have f: "con_parse (UBInt8 None) [0, 0, 7] 2 new_context = (Inr (VInt 7), 3, new_context)"
    by code_simp
  have g: "con_build (UBInt8 None) (VInt 7) \<lparr>sbuf = [], spos = 2\<rparr> new_context =
             (Inr (), \<lparr>sbuf = [0, 0, 7], spos = 3\<rparr>, new_context)"
    by code_simp
  have b: "Pointer_parse (\<lambda>c. Inr (- 1)) (UBInt8 None) [0, 0, 7] 1 new_context = (Inr (VInt 7), 1, new_context)"
    by code_simp
  note t0 = Pointer_frame [where offsetfunc = "\<lambda>c. Inr 2" and subcon = "UBInt8 None"
      and data = "[0, 0, 7]" and pos = 1 and ctx = "new_context" and obj = "VInt 7" and n = 2 and p = 3
      and ctx' = "new_context" and v = "VInt 7" and s = "BytesIO []" and u = "()"
      and t = "\<lparr>sbuf = [0, 0, 7], spos = 3\<rparr>"]
  from t0 f have a: "Pointer_parse (\<lambda>c. Inr 2) (UBInt8 None) [0, 0, 7] 1 new_context =
                       (Inr (VInt 7), 1, new_context)"
    by simp
  from t0 g have c: "Pointer_build (\<lambda>c. Inr 2) (UBInt8 None) (VInt 7) (BytesIO []) new_context =
                       (Inr (), \<lparr>sbuf = [0, 0, 7], spos = 0\<rparr>, new_context)"
    by (simp add: BytesIO_def)
  note t1 = Pointer_frame [where offsetfunc = "\<lambda>c. Inr (- 1)" and subcon = "UBInt8 None"
      and data = "[0, 0, 7]" and pos = 1 and ctx = "new_context" and obj = "VInt 7" and pos' = 1
      and ctx' = "new_context"]
  note t2 = Pointer_frame [where offsetfunc = "\<lambda>c. Inr 2" and subcon = "UBInt8 None"
      and v = "VInt 7" and s = "BytesIO []" and ctx = "new_context" and u = "()"
      and s' = "\<lparr>sbuf = [0, 0, 7], spos = 0\<rparr>" and ctx' = "new_context"]
  from t1 b have d: "\<exists>newpos p. (\<lambda>c. Inr (- 1)) new_context = Inr newpos
         \<and> con_parse (UBInt8 None) [0, 0, 7]
              (if newpos < 0 then seek_end (length [0, 0, 7 :: byte]) newpos else nat newpos) new_context =
             (Inr (VInt 7), p, new_context)"
    by blast
  from t2 c have e: "spos \<lparr>sbuf = [0, 0, 7], spos = 0\<rparr> = spos (BytesIO [])
    \<and> Pointer_sizeof new_context = Inr 0"
    by blast
  from f g a b c d e show ?thesis by blast
qed

subsection \<open>Select\<close>






subsection \<open>Range\<close>

lemma Range_parse_loop_step:
  "Range_parse_loop mn mx sc c obj data pos ctx =
     (if c < mx then
        (case item_parse sc data pos ctx of
           (Inr item, p', c') \<Rightarrow> Range_parse_loop mn mx sc (c + 1) (obj @ [item]) data p' c'
         | (Inl e, p', c') \<Rightarrow>
             if issubclass e ConstructError then
               (if c < mn then (Inl RangeError, p', c') else (Inr (VList obj), pos, c'))
             else (Inl e, p', c'))
      else (Inr (VList obj), pos, ctx))"
  by (subst Range_parse_loop.simps)
     (simp add: item_parse_def Let_def split: prod.splits sum.splits)

lemma Range_parse_loop_run:
  assumes "parse_items sc k data pos ctx = Some (items, p, c')" and "c + int k \<le> mx"
  shows "Range_parse_loop mn mx sc c obj data pos ctx =
           Range_parse_loop mn mx sc (c + int k) (obj @ items) data p c'"
  using assms
proof (induction k arbitrary: c obj pos ctx items)
  case 0
  then show ?case by simp
next
  case (Suc k)
  from Suc.prems(1) obtain item p1 c1 its where
    i: "item_parse sc data pos ctx = (Inr item, p1, c1)"
    and r: "parse_items sc k data p1 c1 = Some (its, p, c')"
    and items: "items = item # its"
    by (auto split: prod.splits sum.splits option.splits)
  have "Range_parse_loop mn mx sc (c + 1) (obj @ [item]) data p1 c1 =
          Range_parse_loop mn mx sc (c + 1 + int k) ((obj @ [item]) @ its) data p c'"
    using Suc.prems(2) by (intro Suc.IH [OF r]) simp
  moreover have "c < mx" using Suc.prems(2) by simp
  ultimately show ?case
    by (subst Range_parse_loop_step) (simp add: i items add.assoc)
qed

lemma Range_parse_loop_bounds:
  assumes "Range_parse_loop mn mx sc c obj data pos ctx = (Inr v, p, c')"
    and "c = int (length obj)" and "mn \<le> mx" and "c \<le> mx"
  shows "\<exists>items. v = VList items \<and> mn \<le> int (length items) \<and> int (length items) \<le> mx"
  using assms
proof (induction mn mx sc c obj data pos ctx rule: Range_parse_loop.induct)
  case (1 mn mx sc c obj data pos ctx)
  show ?case
  proof (cases "c < mx")
    case False
    with "1.prems" show ?thesis
      by (subst (asm) Range_parse_loop.simps) auto
  next
    case True
    obtain r p1 c1 where e: "con_parse sc data pos
        (if is_flag (conflags sc) FLAG_COPY_CONTEXT then context_copy ctx else ctx) = (r, p1, c1)"
      by (cases "con_parse sc data pos
        (if is_flag (conflags sc) FLAG_COPY_CONTEXT then context_copy ctx else ctx)")
    show ?thesis
    proof (cases r)
      case (Inl x)
      with "1.prems" True e show ?thesis
        by (subst (asm) Range_parse_loop.simps) (auto simp: Let_def split: if_splits)
    next
      case (Inr item)
      from "1.prems"(1) True e Inr have
        "Range_parse_loop mn mx sc (c + 1) (obj @ [item]) data p1
           (if is_flag (conflags sc) FLAG_COPY_CONTEXT then copy_dropped ctx c1 else c1) =
             (Inr v, p, c')"
        by (subst (asm) Range_parse_loop.simps) (simp add: Let_def)
      then show ?thesis
        using "1.prems" True e Inr
        by (intro "1.IH" [OF True refl refl _ refl refl]) (auto simp: )
    qed
  qed
qed

lemma Range_build_loop_run:
  assumes "build_items sc pre s ctx = Some (s1, c1)"
  shows "Range_build_loop mn sc (pre @ rest) cnt s ctx =
           Range_build_loop mn sc rest (cnt + int (length pre)) s1 c1"
  using assms
proof (induction pre arbitrary: cnt s ctx)
  case Nil
  then show ?case by simp
next
  case (Cons x pre)
  from Cons.prems obtain u s' c' where
    i: "item_build sc x s ctx = (Inr u, s', c')" and r: "build_items sc pre s' c' = Some (s1, c1)"
    by (auto split: prod.splits sum.splits)
  have "Range_build_loop mn sc (pre @ rest) (cnt + 1) s' c' =
          Range_build_loop mn sc rest (cnt + 1 + int (length pre)) s1 c1"
    by (rule Cons.IH [OF r])
  then show ?case
    using i by (auto simp: item_build_def Let_def add.assoc split: prod.splits if_splits)
qed

lemma Range_build_loop_fail:
  assumes "item_build sc bad s1 c1 = (Inl e, s2, c2)" and "issubclass e ConstructError"
  shows "Range_build_loop mn sc (bad # rest) cnt s1 c1 =
           (if cnt < mn then (Inl RangeError, s2, c2) else (Inr (), s2, c2))"
  using assms by (auto simp: item_build_def Let_def split: prod.splits if_splits)

text \<open>
  C6, as stated, fails where the subconstruct fails with an exception that is no construct
  error: \<open>Range._parse\<close> catches construct errors only. A Struct with two fields of the same
  name raises the overwrite error, a \<open>ValueError\<close>: with no item parsed and \<open>min = 1\<close> no
  range error is raised, and with \<open>min = 0\<close> the empty list is not returned; the overwrite
  error leaves the parse with the stream at 2. A CString decoded as ASCII parses \<open>hi\<close> and
  then meets the byte 255, where \<open>decode\<close> raises a \<open>UnicodeDecodeError\<close>: the stream is
  not taken back to 3, the position recorded before that attempt, and the item parsed before
  is not returned.
\<close>

theorem Range_parse_other_error:
  "isl (Struct (Some ''s'') [UBInt8 (Some ''a''), UBInt8 (Some ''a'')] True False) = False
   \<and> issubclass OverwriteError ConstructError = False
   \<and> Range_parse 1 5
        (projr (Struct (Some ''s'') [UBInt8 (Some ''a''), UBInt8 (Some ''a'')] True False))
        [1, 2] 0 new_context =
       (Inl OverwriteError, 2, \<lparr>vars = [], shared = [[(Some ''a'', VInt 1)]]\<rparr>)
   \<and> Range_parse 0 5
        (projr (Struct (Some ''s'') [UBInt8 (Some ''a''), UBInt8 (Some ''a'')] True False))
        [1, 2] 0 new_context =
       (Inl OverwriteError, 2, \<lparr>vars = [], shared = [[(Some ''a'', VInt 1)]]\<rparr>)
   \<and> isl (CString None [0] (Some ascii_codec)) = False
   \<and> issubclass UnicodeDecodeError ConstructError = False
   \<and> parse_items (projr (CString None [0] (Some ascii_codec))) 1 [104, 105, 0, 255, 0] 0
        new_context = Some ([VStr ''hi''], 3, new_context)
   \<and> item_parse (projr (CString None [0] (Some ascii_codec))) [104, 105, 0, 255, 0] 3
        new_context = (Inl UnicodeDecodeError, 5, new_context)
   \<and> Range_parse 0 5 (projr (CString None [0] (Some ascii_codec))) [104, 105, 0, 255, 0] 0
        new_context = (Inl UnicodeDecodeError, 5, new_context)
   \<and> isl (Range 0 5 (projr (CString None [0] (Some ascii_codec)))) = False
   \<and> parse (projr (Range 0 5 (projr (CString None [0] (Some ascii_codec)))))
        [104, 105, 0, 255, 0] = Inl UnicodeDecodeError"
  by code_simp

text \<open>
  C6, amended: for \<open>Range(min, max, C)\<close> with \<open>0 \<le> min \<le> max\<close>: a parse that returns,
  returns a list of between \<open>min\<close> and \<open>max\<close> items. When \<open>k < max\<close> items have parsed and
  the next attempt fails with a construct error, a range error is raised if \<open>k < min\<close>;
  otherwise the \<open>k\<close> items are returned and the stream is back at the position recorded
  before the failed attempt. When the next attempt fails with an exception that is no
  construct error, that exception ends the parse whatever \<open>k\<close> is: the stream stays where
  the failure left it and the items parsed are not returned. When \<open>max\<close> items have parsed,
  they are returned. \<open>build\<close> raises a range error, and writes nothing, when the input is
  not a sequence or its length lies outside \<open>[min, max]\<close>.
\<close>

theorem Range_parse_build_bounds:
  assumes "0 \<le> mincount" and "mincount \<le> maxcount"
  shows "(Range_parse mincount maxcount subcon data pos ctx = (Inr v, p, c) \<longrightarrow>
           (\<exists>items. v = VList items \<and> mincount \<le> int (length items)
              \<and> int (length items) \<le> maxcount))
       \<and> (parse_items subcon k data pos ctx = Some (items, p1, c1) \<and> int k < maxcount
            \<and> item_parse subcon data p1 c1 = (Inl e, p2, c2) \<and> issubclass e ConstructError \<longrightarrow>
           Range_parse mincount maxcount subcon data pos ctx =
             (if int k < mincount then (Inl RangeError, p2, c2) else (Inr (VList items), p1, c2)))
       \<and> (parse_items subcon k data pos ctx = Some (items, p1, c1) \<and> int k < maxcount
            \<and> item_parse subcon data p1 c1 = (Inl e, p2, c2) \<and> \<not> issubclass e ConstructError \<longrightarrow>
           Range_parse mincount maxcount subcon data pos ctx = (Inl e, p2, c2))
       \<and> (parse_items subcon k data pos ctx = Some (items, p1, c1) \<and> int k = maxcount \<longrightarrow>
           Range_parse mincount maxcount subcon data pos ctx = (Inr (VList items), p1, c1))
       \<and> (seq_items obj = None
            \<or> (\<exists>xs. seq_items obj = Some xs
                  \<and> (int (length xs) < mincount \<or> maxcount < int (length xs))) \<longrightarrow>
           Range_build mincount maxcount subcon obj s ctx = (Inl RangeError, s, ctx))"
proof (intro conjI impI)
  assume "Range_parse mincount maxcount subcon data pos ctx = (Inr v, p, c)"
  then show "\<exists>items. v = VList items \<and> mincount \<le> int (length items)
              \<and> int (length items) \<le> maxcount"
    unfolding Range_parse_def using assms
    by (intro Range_parse_loop_bounds [where obj = "[]" and c = 0]) auto
next
  assume a: "parse_items subcon k data pos ctx = Some (items, p1, c1) \<and> int k < maxcount
            \<and> item_parse subcon data p1 c1 = (Inl e, p2, c2) \<and> issubclass e ConstructError"
  then have "Range_parse_loop mincount maxcount subcon 0 [] data pos ctx =
          Range_parse_loop mincount maxcount subcon (0 + int k) ([] @ items) data p1 c1"
    by (intro Range_parse_loop_run) auto
  also have "\<dots> = (if int k < mincount then (Inl RangeError, p2, c2)
                    else (Inr (VList items), p1, c2))"
    using a by (subst Range_parse_loop_step) simp
  finally show "Range_parse mincount maxcount subcon data pos ctx =
             (if int k < mincount then (Inl RangeError, p2, c2) else (Inr (VList items), p1, c2))"
    by (simp add: Range_parse_def)
next
  assume a: "parse_items subcon k data pos ctx = Some (items, p1, c1) \<and> int k < maxcount
            \<and> item_parse subcon data p1 c1 = (Inl e, p2, c2) \<and> \<not> issubclass e ConstructError"
  then have "Range_parse_loop mincount maxcount subcon 0 [] data pos ctx =
          Range_parse_loop mincount maxcount subcon (0 + int k) ([] @ items) data p1 c1"
    by (intro Range_parse_loop_run) auto
  also have "\<dots> = (Inl e, p2, c2)"
    using a by (subst Range_parse_loop_step) simp
  finally show "Range_parse mincount maxcount subcon data pos ctx = (Inl e, p2, c2)"
    by (simp add: Range_parse_def)
next
  assume a: "parse_items subcon k data pos ctx = Some (items, p1, c1) \<and> int k = maxcount"
  then have "Range_parse_loop mincount maxcount subcon 0 [] data pos ctx =
          Range_parse_loop mincount maxcount subcon (0 + int k) ([] @ items) data p1 c1"
    by (intro Range_parse_loop_run) auto
  also have "\<dots> = (Inr (VList items), p1, c1)"
    using a by (subst Range_parse_loop_step) simp
  finally show "Range_parse mincount maxcount subcon data pos ctx = (Inr (VList items), p1, c1)"
    by (simp add: Range_parse_def)
next
  assume "seq_items obj = None
            \<or> (\<exists>xs. seq_items obj = Some xs
                  \<and> (int (length xs) < mincount \<or> maxcount < int (length xs)))"
  then show "Range_build mincount maxcount subcon obj s ctx = (Inl RangeError, s, ctx)"
    by (auto simp: Range_build_def)
qed

theorem Range_parse_build_bounds_witness:
  "(0::int) \<le> 3 \<and> (3::int) \<le> 5 \<and> (0::int) \<le> 1 \<and> (1::int) \<le> 5
   \<and> parse_items (UBInt16 None) 2 [0, 1, 0, 2, 9] 0 \<lparr>vars = [(Some ''n'', VInt 1)], shared = []\<rparr> =
       Some ([VInt 1, VInt 2], 4, \<lparr>vars = [(Some ''n'', VInt 1)], shared = []\<rparr>)
   \<and> item_parse (UBInt16 None) [0, 1, 0, 2, 9] 4 \<lparr>vars = [(Some ''n'', VInt 1)], shared = []\<rparr> =
       (Inl FieldError, 5, \<lparr>vars = [(Some ''n'', VInt 1)], shared = []\<rparr>)
   \<and> issubclass FieldError ConstructError
   \<and> Range_parse 3 5 (UBInt16 None) [0, 1, 0, 2, 9] 0
        \<lparr>vars = [(Some ''n'', VInt 1)], shared = []\<rparr> =
       (Inl RangeError, 5, \<lparr>vars = [(Some ''n'', VInt 1)], shared = []\<rparr>)
   \<and> Range_parse 1 5 (UBInt16 None) [0, 1, 0, 2, 9] 0
        \<lparr>vars = [(Some ''n'', VInt 1)], shared = []\<rparr> =
       (Inr (VList [VInt 1, VInt 2]), 4, \<lparr>vars = [(Some ''n'', VInt 1)], shared = []\<rparr>)
   \<and> (\<exists>items. VList [VInt 1, VInt 2] = VList items
         \<and> (1::int) \<le> int (length items) \<and> int (length items) \<le> 5)
   \<and> parse_items (projr (CString None [0] (Some ascii_codec))) 1 [104, 105, 0, 255, 0] 0
        new_context = Some ([VStr ''hi''], 3, new_context)
   \<and> item_parse (projr (CString None [0] (Some ascii_codec))) [104, 105, 0, 255, 0] 3
        new_context = (Inl UnicodeDecodeError, 5, new_context)
   \<and> issubclass UnicodeDecodeError ConstructError = False
   \<and> Range_parse 1 5 (projr (CString None [0] (Some ascii_codec))) [104, 105, 0, 255, 0] 0
        new_context = (Inl UnicodeDecodeError, 5, new_context)
   \<and> parse_items (UBInt8 None) 5 [1, 2, 3, 4, 5, 6] 0 new_context =
       Some ([VInt 1, VInt 2, VInt 3, VInt 4, VInt 5], 5, new_context)
   \<and> Range_parse 3 5 (UBInt8 None) [1, 2, 3, 4, 5, 6] 0 new_context =
       (Inr (VList [VInt 1, VInt 2, VInt 3, VInt 4, VInt 5]), 5, new_context)
   \<and> seq_items (VInt 0) = None
   \<and> Range_build 3 5 (UBInt8 None) (VInt 0) (BytesIO []) new_context =
       (Inl RangeError, BytesIO [], new_context)
   \<and> seq_items (VList [VInt 1, VInt 2]) = Some [VInt 1, VInt 2]
   \<and> Range_build 3 5 (UBInt8 None) (VList [VInt 1, VInt 2]) (BytesIO []) new_context =
       (Inl RangeError, BytesIO [], new_context)"
proof -
  define ctxn where "ctxn = \<lparr>vars = [(Some ''n'', VInt 1)], shared = []\<rparr>"
  define cs where "cs = projr (CString None [0] (Some ascii_codec))"
  have z: "(0::int) \<le> 3" "(3::int) \<le> 5" by simp_all
  have y: "(0::int) \<le> 1" "(1::int) \<le> 5" by simp_all
  note t = Range_parse_build_bounds [OF z]
  note t1 = Range_parse_build_bounds [OF y]
  have a1: "parse_items (UBInt16 None) 2 [0, 1, 0, 2, 9] 0 ctxn = Some ([VInt 1, VInt 2], 4, ctxn)"
    unfolding ctxn_def by code_simp
  have a2: "item_parse (UBInt16 None) [0, 1, 0, 2, 9] 4 ctxn = (Inl FieldError, 5, ctxn)"
    unfolding ctxn_def by code_simp
  have a3: "issubclass FieldError ConstructError" by code_simp
  have a: "Range_parse 3 5 (UBInt16 None) [0, 1, 0, 2, 9] 0 ctxn = (Inl RangeError, 5, ctxn)"
    using t [where subcon = "UBInt16 None" and k = 2 and data = "[0, 1, 0, 2, 9]" and pos = 0
        and ctx = ctxn and items = "[VInt 1, VInt 2]" and ?p1.0 = 4 and ?c1.0 = ctxn
        and e = FieldError and ?p2.0 = 5 and ?c2.0 = ctxn] a1 a2 a3
    by simp
  have b: "Range_parse 1 5 (UBInt16 None) [0, 1, 0, 2, 9] 0 ctxn =
             (Inr (VList [VInt 1, VInt 2]), 4, ctxn)"
    using t1 [where subcon = "UBInt16 None" and k = 2 and data = "[0, 1, 0, 2, 9]" and pos = 0
        and ctx = ctxn and items = "[VInt 1, VInt 2]" and ?p1.0 = 4 and ?c1.0 = ctxn
        and e = FieldError and ?p2.0 = 5 and ?c2.0 = ctxn] a1 a2 a3
    by simp
  have f: "\<exists>items. VList [VInt 1, VInt 2] = VList items
             \<and> (1::int) \<le> int (length items) \<and> int (length items) \<le> 5"
  proof -
    have "Range_parse 1 5 (UBInt16 None) [0, 1, 0, 2, 9] 0 ctxn =
            (Inr (VList [VInt 1, VInt 2]), 4, ctxn) \<longrightarrow>
          (\<exists>items. VList [VInt 1, VInt 2] = VList items
             \<and> (1::int) \<le> int (length items) \<and> int (length items) \<le> 5)"
      by (rule t1 [where subcon = "UBInt16 None" and data = "[0, 1, 0, 2, 9]" and pos = 0
            and ctx = ctxn and v = "VList [VInt 1, VInt 2]" and p = 4
            and c = ctxn, THEN conjunct1])
    with b show ?thesis by (rule rev_mp)
  qed
  have d1: "parse_items cs 1 [104, 105, 0, 255, 0] 0 new_context =
              Some ([VStr ''hi''], 3, new_context)"
    unfolding cs_def by code_simp
  have d2: "item_parse cs [104, 105, 0, 255, 0] 3 new_context =
              (Inl UnicodeDecodeError, 5, new_context)"
    unfolding cs_def by code_simp
  have d3: "issubclass UnicodeDecodeError ConstructError = False" by code_simp
  have d: "Range_parse 1 5 cs [104, 105, 0, 255, 0] 0 new_context =
             (Inl UnicodeDecodeError, 5, new_context)"
    using t1 [where subcon = cs and k = 1 and data = "[104, 105, 0, 255, 0]" and pos = 0
        and ctx = new_context and items = "[VStr ''hi'']" and ?p1.0 = 3 and ?c1.0 = new_context
        and e = UnicodeDecodeError and ?p2.0 = 5 and ?c2.0 = new_context] d1 d2 d3
    by simp
  have c1: "parse_items (UBInt8 None) 5 [1, 2, 3, 4, 5, 6] 0 new_context =
              Some ([VInt 1, VInt 2, VInt 3, VInt 4, VInt 5], 5, new_context)"
    by code_simp
  have c: "Range_parse 3 5 (UBInt8 None) [1, 2, 3, 4, 5, 6] 0 new_context =
             (Inr (VList [VInt 1, VInt 2, VInt 3, VInt 4, VInt 5]), 5, new_context)"
    using t [where subcon = "UBInt8 None" and k = 5 and data = "[1, 2, 3, 4, 5, 6]" and pos = 0
        and ctx = "new_context" and items = "[VInt 1, VInt 2, VInt 3, VInt 4, VInt 5]" and ?p1.0 = 5
        and ?c1.0 = new_context] c1
    by simp
  have g: "Range_build 3 5 (UBInt8 None) (VInt 0) (BytesIO []) new_context =
             (Inl RangeError, BytesIO [], new_context)"
    using t [where subcon = "UBInt8 None" and obj = "VInt 0" and s = "BytesIO []" and ctx = "new_context"]
    by simp
  have h: "Range_build 3 5 (UBInt8 None) (VList [VInt 1, VInt 2]) (BytesIO []) new_context =
             (Inl RangeError, BytesIO [], new_context)"
    using t [where subcon = "UBInt8 None" and obj = "VList [VInt 1, VInt 2]" and s = "BytesIO []"
        and ctx = "new_context"]
    by simp
  have s1: "seq_items (VInt 0) = None" by simp
  have s2: "seq_items (VList [VInt 1, VInt 2]) = Some [VInt 1, VInt 2]" by simp
  from z y a1 a2 a3 a b f d1 d2 d3 d c1 c s1 g s2 h show ?thesis
    unfolding ctxn_def cs_def
    by (intro conjI) assumption+
qed

text \<open>
  C10, as stated, fails in its last part: the output need not hold only the items built
  before the failure. A \<open>Range(0, 5, Range(2, 2, UBInt8))\<close> given \<open>[[1, 2], [3, 300]]\<close>
  returns the bytes 01 02 03: the inner range had written 03 when 300 made it fail, and
  nothing takes that byte back. The first item alone builds to 01 02.
\<close>

theorem Range_build_partial_item:
  "isl (Range 2 2 (UBInt8 None)) = False
   \<and> isl (Range 0 5 (projr (Range 2 2 (UBInt8 None)))) = False
   \<and> build (projr (Range 0 5 (projr (Range 2 2 (UBInt8 None)))))
        (VList [VList [VInt 1, VInt 2], VList [VInt 3, VInt 300]]) = Inr [1, 2, 3]
   \<and> build (projr (Range 0 5 (projr (Range 2 2 (UBInt8 None)))))
        (VList [VList [VInt 1, VInt 2]]) = Inr [1, 2]
   \<and> con_build (projr (Range 2 2 (UBInt8 None))) (VList [VInt 3, VInt 300])
        \<lparr>sbuf = [1, 2], spos = 2\<rparr> new_context = (Inl RangeError, \<lparr>sbuf = [1, 2, 3], spos = 3\<rparr>, new_context)"
  by code_simp

text \<open>
  C10, amended: when \<open>Range(min, max).build\<close> is given a sequence of valid length, of
  which the items of \<open>pre\<close> build and the next item makes the subconstruct raise a construct
  error, with at least \<open>min\<close> items built before it, then \<open>build\<close> returns successfully:
  the error is discarded, the remaining items are not written, and the stream is not
  rewound, it stays exactly as the failing subconstruct left it (the items built before
  the failure, followed by whatever the failing subconstruct had written when it raised).
\<close>

theorem Range_build_swallows_error:
  assumes "seq_items obj = Some (pre @ bad # rest)"
    and "mincount \<le> int (length pre)" and "int (length (pre @ bad # rest)) \<le> maxcount"
    and "build_items subcon pre s ctx = Some (s1, ctx1)"
    and "item_build subcon bad s1 ctx1 = (Inl e, s2, ctx2)"
    and "issubclass e ConstructError"
  shows "Range_build mincount maxcount subcon obj s ctx = (Inr (), s2, ctx2)"
proof -
  have "Range_build_loop mincount subcon (pre @ bad # rest) 0 s ctx =
          Range_build_loop mincount subcon (bad # rest) (0 + int (length pre)) s1 ctx1"
    by (rule Range_build_loop_run [OF assms(4)])
  also have "\<dots> = (Inr (), s2, ctx2)"
    using assms(2) by (subst Range_build_loop_fail [OF assms(5,6)]) simp
  finally show ?thesis
    using assms(1,2,3) by (simp add: Range_build_def)
qed

theorem Range_build_swallows_error_witness:
  "seq_items (VList [VInt 1, VInt 300, VInt 2]) = Some ([VInt 1] @ VInt 300 # [VInt 2])
   \<and> (0::int) \<le> int (length [VInt 1])
   \<and> int (length ([VInt 1] @ VInt 300 # [VInt 2])) \<le> 5
   \<and> build_items (UBInt8 None) [VInt 1] (BytesIO []) new_context = Some (\<lparr>sbuf = [1], spos = 1\<rparr>, new_context)
   \<and> item_build (UBInt8 None) (VInt 300) \<lparr>sbuf = [1], spos = 1\<rparr> new_context =
       (Inl FieldError, \<lparr>sbuf = [1], spos = 1\<rparr>, new_context)
   \<and> issubclass FieldError ConstructError
   \<and> Range_build 0 5 (UBInt8 None) (VList [VInt 1, VInt 300, VInt 2]) (BytesIO []) new_context =
       (Inr (), \<lparr>sbuf = [1], spos = 1\<rparr>, new_context)"
proof -
  have h1: "seq_items (VList [VInt 1, VInt 300, VInt 2]) = Some ([VInt 1] @ VInt 300 # [VInt 2])"
    by simp
  have h2: "(0::int) \<le> int (length [VInt 1])" by simp
  have h3: "int (length ([VInt 1] @ VInt 300 # [VInt 2])) \<le> 5" by simp
  have h4: "build_items (UBInt8 None) [VInt 1] (BytesIO []) new_context =
              Some (\<lparr>sbuf = [1], spos = 1\<rparr>, new_context)"
    by code_simp
  have h5: "item_build (UBInt8 None) (VInt 300) \<lparr>sbuf = [1], spos = 1\<rparr> new_context =
              (Inl FieldError, \<lparr>sbuf = [1], spos = 1\<rparr>, new_context)"
    by code_simp
  have h6: "issubclass FieldError ConstructError" by code_simp
  show ?thesis
    using h1 h2 h3 h4 h5 h6 Range_build_swallows_error [OF h1 h2 h3 h4 h5 h6] by simp
qed

end
